theory Spec2Isabelle
  imports Main
begin

section \<open>Data model\<close>

text \<open>
  The service \<^verbatim>\<open>QueriesService\<close> (queries.service.ts) works on a Prisma data store, a
  plan-configuration provider (\<^verbatim>\<open>userService.getPlanConfig\<close>) and an event emitter.
  All three are mutable collaborators, so the model threads one explicit state through
  every method. An exception of the source is a value \<open>Inl e\<close>; since the source has no
  transaction and no rollback, a method that throws still returns the state it has
  reached.

  Identifiers are strings, as in the source. The primary key and the \<^verbatim>\<open>createdAt\<close>
  default that the store assigns on insert are not computed by the service; the model
  takes them as arguments of the inserting methods. The source reads revisions with
  \<^verbatim>\<open>findUnique\<close> and deletes them with \<^verbatim>\<open>delete\<close> by \<^verbatim>\<open>id\<close>, and updates a query item
  by \<^verbatim>\<open>id\<close> alone, so \<^verbatim>\<open>id\<close> is a unique key of both tables: an insert under a key
  that is already present is refused by the store.
\<close>

datatype error =
    InvalidRequestException string "string option"
  | BadRequestException
  | NotFoundException
  | UniqueConstraintViolation
  | RecordNotFound
  | TypeError

definition DEFAULT_QUERY_REVISION_LIMIT :: int where
  "DEFAULT_QUERY_REVISION_LIMIT = 10"

record planConfig =
  maxQueryCount :: "int option"
  queryRevisionLimit :: "int option"

record workspace =
  ownerId :: string
  teamId :: "string option"

record team =
  TeamMemberships :: "string list"

record queryCollection =
  workspaceId :: string

record queryContent =
  query :: string
  version :: int
  payload :: string

record queryItem =
  qi_id :: string
  qi_collectionId :: string
  qi_name :: string
  qi_queryVersion :: int
  qi_content :: queryContent

record queryItemRevision =
  rev_id :: string
  rev_queryItemId :: string
  rev_createdById :: string
  rev_name :: string
  rev_content :: queryContent
  rev_collectionId :: string
  rev_createdAt :: nat

record createQueryDto =
  c_collectionId :: "string option"
  c_name :: "string option"
  c_content :: "queryContent option"

record updateQueryDto =
  u_name :: "string option"
  u_collectionId :: "string option"
  u_content :: "queryContent option"

text \<open>
  The tables keyed by a unique id that the service only reads (workspaces, teams,
  collections, plan configurations) are maps from the id. The two tables the service
  writes are lists in insertion order. \<open>events\<close> is the log of the ids sent with
  \<^verbatim>\<open>EVENTS.QUERY_UPDATE\<close>, oldest first.
\<close>

record state =
  workspaces :: "string \<rightharpoonup> workspace"
  teams :: "string \<rightharpoonup> team"
  queryCollections :: "string \<rightharpoonup> queryCollection"
  planConfigs :: "string \<rightharpoonup> planConfig"
  queryItems :: "queryItem list"
  queryItemRevisions :: "queryItemRevision list"
  events :: "string list"

section \<open>Access scopes\<close>

text \<open>
  \<^verbatim>\<open>ownerWhere\<close>: the item's collection exists, its workspace exists and is owned by the
  user. A relation filter of the store holds only when the related row exists.
\<close>

definition workspaceOf :: "state \<Rightarrow> string \<Rightarrow> workspace option" where
  "workspaceOf s collectionId =
     (case queryCollections s collectionId of
        None \<Rightarrow> None
      | Some c \<Rightarrow> workspaces s (workspaceId c))"

definition collectionOwnedBy :: "state \<Rightarrow> string \<Rightarrow> string \<Rightarrow> bool" where
  "collectionOwnedBy s userId collectionId =
     (case workspaceOf s collectionId of
        None \<Rightarrow> False
      | Some w \<Rightarrow> ownerId w = userId)"

definition collectionOfTeamMember :: "state \<Rightarrow> string \<Rightarrow> string \<Rightarrow> bool" where
  "collectionOfTeamMember s userId collectionId =
     (case workspaceOf s collectionId of
        None \<Rightarrow> False
      | Some w \<Rightarrow>
          (case teamId w of
             None \<Rightarrow> False
           | Some t \<Rightarrow>
               (case teams s t of
                  None \<Rightarrow> False
                | Some tm \<Rightarrow> userId \<in> set (TeamMemberships tm))))"

definition ownerWhere :: "state \<Rightarrow> string \<Rightarrow> queryItem \<Rightarrow> bool" where
  "ownerWhere s userId q = collectionOwnedBy s userId (qi_collectionId q)"

definition ownerOrMemberWhere :: "state \<Rightarrow> string \<Rightarrow> queryItem \<Rightarrow> bool" where
  "ownerOrMemberWhere s userId q =
     (collectionOwnedBy s userId (qi_collectionId q)
      \<or> collectionOfTeamMember s userId (qi_collectionId q))"

section \<open>Quota policy\<close>

definition getPlanConfig :: "state \<Rightarrow> string \<Rightarrow> planConfig option" where
  "getPlanConfig s userId = planConfigs s userId"

text \<open>\<^verbatim>\<open>userPlanConfig?.maxQueryCount ?? 0\<close>, the first two lines of \<^verbatim>\<open>create\<close>.\<close>

definition userPlanMaxQueryCount :: "state \<Rightarrow> string \<Rightarrow> int" where
  "userPlanMaxQueryCount s userId =
     (case getPlanConfig s userId of
        None \<Rightarrow> 0
      | Some p \<Rightarrow> (case maxQueryCount p of None \<Rightarrow> 0 | Some m \<Rightarrow> m))"

text \<open>
  \<^verbatim>\<open>userPlanConfig?.queryRevisionLimit ?? DEFAULT_QUERY_REVISION_LIMIT\<close>, the first
  lines of \<^verbatim>\<open>addQueryRevision\<close>.
\<close>

definition userPlanQueryRevisionLimit :: "state \<Rightarrow> string \<Rightarrow> int" where
  "userPlanQueryRevisionLimit s userId =
     (case getPlanConfig s userId of
        None \<Rightarrow> DEFAULT_QUERY_REVISION_LIMIT
      | Some p \<Rightarrow>
          (case queryRevisionLimit p of
             None \<Rightarrow> DEFAULT_QUERY_REVISION_LIMIT
           | Some l \<Rightarrow> l))"

section \<open>Store operations and the event emitter\<close>

definition emit :: "string \<Rightarrow> state \<Rightarrow> state" where
  "emit i s = s\<lparr>events := events s @ [i]\<rparr>"

text \<open>\<^verbatim>\<open>prisma.queryItem.create\<close>: refused when the key is taken.\<close>

definition queryItem_create :: "queryItem \<Rightarrow> state \<Rightarrow> error + state" where
  "queryItem_create q s =
     (if qi_id q \<in> set (map qi_id (queryItems s))
      then Inl UniqueConstraintViolation
      else Inr (s\<lparr>queryItems := queryItems s @ [q]\<rparr>))"

text \<open>\<^verbatim>\<open>prisma.queryItemRevision.create\<close>: refused when the key is taken.\<close>

definition queryItemRevision_create :: "queryItemRevision \<Rightarrow> state \<Rightarrow> error + state" where
  "queryItemRevision_create r s =
     (if rev_id r \<in> set (map rev_id (queryItemRevisions s))
      then Inl UniqueConstraintViolation
      else Inr (s\<lparr>queryItemRevisions := queryItemRevisions s @ [r]\<rparr>))"

text \<open>\<^verbatim>\<open>prisma.queryItemRevision.count({ where: { queryItemId } })\<close>.\<close>

definition revisionsOf :: "state \<Rightarrow> string \<Rightarrow> queryItemRevision list" where
  "revisionsOf s queryId = filter (\<lambda>r. rev_queryItemId r = queryId) (queryItemRevisions s)"

text \<open>
  \<^verbatim>\<open>findFirst\<close> with \<^verbatim>\<open>orderBy: { createdAt: 'asc' }\<close>: a row with the least
  \<^verbatim>\<open>createdAt\<close>. Among rows with equal timestamps the store promises no order; the model
  takes the one inserted first.
\<close>

fun oldest :: "queryItemRevision list \<Rightarrow> queryItemRevision option" where
  "oldest [] = None"
| "oldest (r # rs) =
     (case oldest rs of
        None \<Rightarrow> Some r
      | Some m \<Rightarrow> if rev_createdAt r \<le> rev_createdAt m then Some r else Some m)"

text \<open>\<^verbatim>\<open>prisma.queryItemRevision.delete({ where: { id } })\<close>.\<close>

definition queryItemRevision_delete :: "string \<Rightarrow> state \<Rightarrow> state" where
  "queryItemRevision_delete i s =
     s\<lparr>queryItemRevisions := filter (\<lambda>r. rev_id r \<noteq> i) (queryItemRevisions s)\<rparr>"

section \<open>The service\<close>

definition findOne :: "state \<Rightarrow> string \<Rightarrow> string \<Rightarrow> error + queryItem" where
  "findOne s userId i =
     (case find (\<lambda>q. qi_id q = i \<and> ownerOrMemberWhere s userId q) (queryItems s) of
        None \<Rightarrow> Inl NotFoundException
      | Some q \<Rightarrow> Inr q)"

definition findAll :: "state \<Rightarrow> string \<Rightarrow> queryItem list" where
  "findAll s userId = filter (ownerOrMemberWhere s userId) (queryItems s)"

text \<open>
  \<^verbatim>\<open>addQueryRevision\<close>. \<open>revId\<close> and \<open>now\<close> are the key and the \<^verbatim>\<open>createdAt\<close> the store
  gives the new row; \<open>revisionRow\<close> is the \<^verbatim>\<open>data\<close> of the insert together with
  both. Reading \<^verbatim>\<open>oldestRevision.id\<close> of a missing row is a TypeError.
\<close>

definition revisionRow ::
  "string \<Rightarrow> string \<Rightarrow> queryItem \<Rightarrow> string \<Rightarrow> nat \<Rightarrow> queryItemRevision" where
  "revisionRow userId queryId q revId now =
     \<lparr>rev_id = revId, rev_queryItemId = queryId, rev_createdById = userId,
      rev_name = qi_name q, rev_content = qi_content q,
      rev_collectionId = qi_collectionId q, rev_createdAt = now\<rparr>"

definition addQueryRevision ::
  "string \<Rightarrow> string \<Rightarrow> string \<Rightarrow> nat \<Rightarrow> state \<Rightarrow> (error + queryItemRevision) \<times> state" where
  "addQueryRevision userId queryId revId now s =
     (case findOne s userId queryId of
        Inl e \<Rightarrow> (Inl e, s)
      | Inr q \<Rightarrow>
          (let res = revisionRow userId queryId q revId now
           in case queryItemRevision_create res s of
                Inl e \<Rightarrow> (Inl e, s)
              | Inr s1 \<Rightarrow>
                  (if int (length (revisionsOf s1 queryId)) > userPlanQueryRevisionLimit s userId
                   then (case oldest (revisionsOf s1 queryId) of
                           None \<Rightarrow> (Inl TypeError, s1)
                         | Some oldestRevision \<Rightarrow>
                             (Inr res, queryItemRevision_delete (rev_id oldestRevision) s1))
                   else (Inr res, s1))))"

text \<open>
  \<^verbatim>\<open>prisma.queryItem.updateMany\<close> with the scoped filter of \<^verbatim>\<open>update\<close>. A field the dto
  leaves undefined is not written. The result is the number of rows that matched.
\<close>

definition applyUpdate :: "updateQueryDto \<Rightarrow> queryItem \<Rightarrow> queryItem" where
  "applyUpdate dto q =
     q\<lparr>qi_name := (case u_name dto of None \<Rightarrow> qi_name q | Some n \<Rightarrow> n),
       qi_collectionId := (case u_collectionId dto of None \<Rightarrow> qi_collectionId q | Some c \<Rightarrow> c),
       qi_content := (case u_content dto of None \<Rightarrow> qi_content q | Some c \<Rightarrow> c)\<rparr>"

definition queryItem_updateMany ::
  "(queryItem \<Rightarrow> bool) \<Rightarrow> updateQueryDto \<Rightarrow> state \<Rightarrow> nat \<times> state" where
  "queryItem_updateMany wh dto s =
     (length (filter wh (queryItems s)),
      s\<lparr>queryItems := map (\<lambda>q. if wh q then applyUpdate dto q else q) (queryItems s)\<rparr>)"

text \<open>
  \<^verbatim>\<open>prisma.queryItem.deleteMany\<close>. What the store does with the revisions of a deleted
  item is decided by the schema, which the service does not state; the model leaves the
  revision table as it is.
\<close>

definition queryItem_deleteMany :: "(queryItem \<Rightarrow> bool) \<Rightarrow> state \<Rightarrow> nat \<times> state" where
  "queryItem_deleteMany wh s =
     (length (filter wh (queryItems s)),
      s\<lparr>queryItems := filter (\<lambda>q. \<not> wh q) (queryItems s)\<rparr>)"

text \<open>
  \<^verbatim>\<open>prisma.queryItem.update({ where: { id }, data })\<close> as \<^verbatim>\<open>restoreRevision\<close> calls it:
  all three fields are written; the store throws when no row has the id.
\<close>

definition queryItem_update ::
  "string \<Rightarrow> string \<Rightarrow> queryContent \<Rightarrow> string \<Rightarrow> state \<Rightarrow> (error + queryItem) \<times> state" where
  "queryItem_update i n c col s =
     (case find (\<lambda>q. qi_id q = i) (queryItems s) of
        None \<Rightarrow> (Inl RecordNotFound, s)
      | Some q \<Rightarrow>
          (Inr (q\<lparr>qi_name := n, qi_content := c, qi_collectionId := col\<rparr>),
           s\<lparr>queryItems :=
               map (\<lambda>q. if qi_id q = i
                         then q\<lparr>qi_name := n, qi_content := c, qi_collectionId := col\<rparr>
                         else q)
                   (queryItems s)\<rparr>))"

definition ERR_MAX_QUERY_COUNT :: error where
  "ERR_MAX_QUERY_COUNT = InvalidRequestException ''ERR_MAX_QUERY_COUNT'' None"

definition ERR_PERM_DENIED :: error where
  "ERR_PERM_DENIED =
     InvalidRequestException ''ERR_PERM_DENIED''
       (Some ''You do not have the permission to add a query to this collection'')"

text \<open>
  \<^verbatim>\<open>create\<close>. \<open>newId\<close> is the key the store gives the new item; \<open>revId\<close> and \<open>now\<close> are
  passed on to \<^verbatim>\<open>addQueryRevision\<close>. A string is falsy when it is undefined or empty.
  The checks keep the order of the source: quota, shape of the dto, ownership of the
  collection.
\<close>

definition falsy :: "string option \<Rightarrow> bool" where
  "falsy x = (case x of None \<Rightarrow> True | Some v \<Rightarrow> v = [])"

definition create ::
  "string \<Rightarrow> createQueryDto \<Rightarrow> string \<Rightarrow> string \<Rightarrow> nat \<Rightarrow> state
     \<Rightarrow> (error + queryItem) \<times> state" where
  "create userId dto newId revId now s =
     (if int (length (filter (ownerWhere s userId) (queryItems s))) \<ge> userPlanMaxQueryCount s userId
      then (Inl ERR_MAX_QUERY_COUNT, s)
      else
        (case (c_collectionId dto, c_name dto, c_content dto) of
           (Some collectionId, Some name, Some content) \<Rightarrow>
             (if falsy (Some collectionId) \<or> falsy (Some name)
                 \<or> falsy (Some (query content)) \<or> version content \<noteq> 1
              then (Inl BadRequestException, s)
              else if \<not> collectionOwnedBy s userId collectionId
              then (Inl ERR_PERM_DENIED, s)
              else
                (let res = \<lparr>qi_id = newId, qi_collectionId = collectionId, qi_name = name,
                            qi_queryVersion = version content, qi_content = content\<rparr>
                 in case queryItem_create res s of
                      Inl e \<Rightarrow> (Inl e, s)
                    | Inr s1 \<Rightarrow>
                        (case addQueryRevision userId (qi_id res) revId now s1 of
                           (Inl e, s2) \<Rightarrow> (Inl e, s2)
                         | (Inr r, s2) \<Rightarrow> (Inr res, emit (qi_id res) s2))))
         | _ \<Rightarrow> (Inl BadRequestException, s)))"

text \<open>\<^verbatim>\<open>update\<close>: the result is the \<^verbatim>\<open>count\<close> of the bulk update.\<close>

definition update ::
  "string \<Rightarrow> string \<Rightarrow> updateQueryDto \<Rightarrow> string \<Rightarrow> nat \<Rightarrow> state \<Rightarrow> (error + nat) \<times> state" where
  "update userId i dto revId now s =
     (case queryItem_updateMany (\<lambda>q. qi_id q = i \<and> ownerOrMemberWhere s userId q) dto s of
        (count, s1) \<Rightarrow>
          (let s2 = (if count \<noteq> 0 then emit i s1 else s1)
           in case addQueryRevision userId i revId now s2 of
                (Inl e, s3) \<Rightarrow> (Inl e, s3)
              | (Inr r, s3) \<Rightarrow> (Inr count, s3)))"

text \<open>\<^verbatim>\<open>remove\<close>: the result is the \<^verbatim>\<open>count\<close> of the bulk delete.\<close>

definition remove :: "string \<Rightarrow> string \<Rightarrow> state \<Rightarrow> (error + nat) \<times> state" where
  "remove userId i s =
     (case queryItem_deleteMany (\<lambda>q. qi_id q = i \<and> ownerWhere s userId q) s of
        (count, s1) \<Rightarrow> (Inr count, if count \<noteq> 0 then emit i s1 else s1))"

text \<open>
  \<^verbatim>\<open>restoreRevision\<close>. The second \<^verbatim>\<open>if (!query)\<close> of the source cannot fire, since
  \<^verbatim>\<open>findOne\<close> throws instead of returning nothing.
\<close>

definition restoreRevision :: "string \<Rightarrow> string \<Rightarrow> state \<Rightarrow> (error + queryItem) \<times> state" where
  "restoreRevision userId revisionId s =
     (case find (\<lambda>r. rev_id r = revisionId) (queryItemRevisions s) of
        None \<Rightarrow> (Inl NotFoundException, s)
      | Some revision \<Rightarrow>
          (case findOne s userId (rev_queryItemId revision) of
             Inl e \<Rightarrow> (Inl e, s)
           | Inr q \<Rightarrow>
               queryItem_update (rev_queryItemId revision)
                 (rev_name revision) (rev_content revision) (rev_collectionId revision) s))"

text \<open>The condition of the shape check of \<^verbatim>\<open>create\<close> (its second \<^verbatim>\<open>if\<close>), as a predicate.\<close>

definition malformed :: "createQueryDto \<Rightarrow> bool" where
  "malformed dto =
     (falsy (c_collectionId dto) \<or> falsy (c_name dto)
      \<or> (case c_content dto of
            None \<Rightarrow> True
          | Some c \<Rightarrow> falsy (Some (query c)) \<or> version c \<noteq> 1))"

text \<open>
  The eviction step of \<^verbatim>\<open>addQueryRevision\<close> seen on the rows of one query item: when
  they are more than the limit, the row \<^verbatim>\<open>findFirst\<close> returns is deleted by its id.
\<close>

definition evict :: "int \<Rightarrow> queryItemRevision list \<Rightarrow> queryItemRevision list" where
  "evict limit rs =
     (if int (length rs) > limit
      then (case oldest rs of
              None \<Rightarrow> rs
            | Some old \<Rightarrow> filter (\<lambda>r. rev_id r \<noteq> rev_id old) rs)
      else rs)"

section \<open>Sequential calls\<close>

text \<open>
  A run of \<^verbatim>\<open>create\<close> calls by one user, each awaited before the next is issued. A call
  is the dto with the key of the new item, the key of its first revision and the time
  of that revision. The results are in call order.
\<close>

type_synonym createCall = "createQueryDto \<times> string \<times> string \<times> nat"

fun createAll :: "string \<Rightarrow> createCall list \<Rightarrow> state \<Rightarrow> (error + queryItem) list \<times> state" where
  "createAll userId [] s = ([], s)"
| "createAll userId ((dto, newId, revId, now) # cs) s =
     (case create userId dto newId revId now s of
        (r, s1) \<Rightarrow> (case createAll userId cs s1 of (rs, s2) \<Rightarrow> (r # rs, s2)))"

text \<open>
  A call that passes the shape check of \<^verbatim>\<open>create\<close> and names a collection of a workspace
  the user owns.
\<close>

definition acceptable :: "state \<Rightarrow> string \<Rightarrow> createCall \<Rightarrow> bool" where
  "acceptable s userId c =
     (case c of (dto, newId, revId, now) \<Rightarrow>
        (case (c_collectionId dto, c_name dto, c_content dto) of
           (Some collectionId, Some name, Some content) \<Rightarrow>
             collectionId \<noteq> [] \<and> name \<noteq> [] \<and> query content \<noteq> [] \<and> version content = 1
             \<and> collectionOwnedBy s userId collectionId
         | _ \<Rightarrow> False))"

definition newItemId :: "createCall \<Rightarrow> string" where
  "newItemId c = (case c of (dto, newId, revId, now) \<Rightarrow> newId)"

definition newRevisionId :: "createCall \<Rightarrow> string" where
  "newRevisionId c = (case c of (dto, newId, revId, now) \<Rightarrow> revId)"

section \<open>An example store\<close>

text \<open>
  Alice owns workspace w1, shared with the team of Carol; Bob owns w2 and has no plan;
  Dave owns w3 under a plan of one query. Alice's plan keeps two revisions. The one
  query item, q1, lies in Alice's collection c1 and has two revisions.
\<close>

definition contentA :: queryContent where
  "contentA = \<lparr>query = ''{ a }'', version = 1, payload = []\<rparr>"

definition contentB :: queryContent where
  "contentB = \<lparr>query = ''{ b }'', version = 1, payload = []\<rparr>"

definition itemQ1 :: queryItem where
  "itemQ1 = \<lparr>qi_id = ''q1'', qi_collectionId = ''c1'', qi_name = ''current'',
             qi_queryVersion = 1, qi_content = contentB\<rparr>"

definition revisionR0 :: queryItemRevision where
  "revisionR0 = \<lparr>rev_id = ''r0'', rev_queryItemId = ''q1'', rev_createdById = ''alice'',
                 rev_name = ''first'', rev_content = contentA, rev_collectionId = ''c1'',
                 rev_createdAt = 3\<rparr>"

definition revisionR1 :: queryItemRevision where
  "revisionR1 = \<lparr>rev_id = ''r1'', rev_queryItemId = ''q1'', rev_createdById = ''carol'',
                 rev_name = ''second'', rev_content = contentA, rev_collectionId = ''c1'',
                 rev_createdAt = 5\<rparr>"

definition exampleStore :: state where
  "exampleStore =
     \<lparr>workspaces = [''w1'' \<mapsto> \<lparr>ownerId = ''alice'', teamId = Some ''t1''\<rparr>,
                    ''w2'' \<mapsto> \<lparr>ownerId = ''bob'', teamId = None\<rparr>,
                    ''w3'' \<mapsto> \<lparr>ownerId = ''dave'', teamId = None\<rparr>],
      teams = [''t1'' \<mapsto> \<lparr>TeamMemberships = [''carol'']\<rparr>],
      queryCollections = [''c1'' \<mapsto> \<lparr>workspaceId = ''w1''\<rparr>,
                          ''c2'' \<mapsto> \<lparr>workspaceId = ''w2''\<rparr>,
                          ''c3'' \<mapsto> \<lparr>workspaceId = ''w3''\<rparr>],
      planConfigs = [''alice'' \<mapsto> \<lparr>maxQueryCount = Some 5, queryRevisionLimit = Some 2\<rparr>,
                     ''dave'' \<mapsto> \<lparr>maxQueryCount = Some 1, queryRevisionLimit = None\<rparr>],
      queryItems = [itemQ1],
      queryItemRevisions = [revisionR0, revisionR1],
      events = []\<rparr>"

section \<open>Scopes and frames\<close>

lemmas scope_defs = ownerWhere_def ownerOrMemberWhere_def collectionOwnedBy_def
  collectionOfTeamMember_def workspaceOf_def

lemmas example_defs = exampleStore_def itemQ1_def revisionR0_def revisionR1_def
  contentA_def contentB_def

lemma ownerOrMemberWhere_frame:
  "workspaces s' = workspaces s \<Longrightarrow> teams s' = teams s \<Longrightarrow>
   queryCollections s' = queryCollections s \<Longrightarrow>
   ownerOrMemberWhere s' = ownerOrMemberWhere s"
  by (intro ext) (simp add: scope_defs cong: option.case_cong)

lemma ownerWhere_frame:
  "workspaces s' = workspaces s \<Longrightarrow> queryCollections s' = queryCollections s \<Longrightarrow>
   ownerWhere s' = ownerWhere s"
  by (intro ext) (simp add: scope_defs cong: option.case_cong)

lemma findOne_none:
  assumes "\<forall>q\<in>set (queryItems s). qi_id q = i \<longrightarrow> \<not> ownerOrMemberWhere s u q"
  shows "findOne s u i = Inl NotFoundException"
proof -
  have "find (\<lambda>q. qi_id q = i \<and> ownerOrMemberWhere s u q) (queryItems s) = None"
    using assms by (auto simp: find_None_iff)
  then show ?thesis by (simp add: findOne_def)
qed

lemma findOne_some:
  "findOne s u i = Inr q \<Longrightarrow> q \<in> set (queryItems s) \<and> qi_id q = i \<and> ownerOrMemberWhere s u q"
  by (auto simp: findOne_def find_Some_iff split: option.splits)

lemma addQueryRevision_events:
  "events (snd (addQueryRevision u i rid now s)) = events s"
  by (simp add: addQueryRevision_def queryItemRevision_create_def queryItemRevision_delete_def
        Let_def split: sum.splits option.splits)

lemma addQueryRevision_queryItems:
  "queryItems (snd (addQueryRevision u i rid now s)) = queryItems s"
  by (simp add: addQueryRevision_def queryItemRevision_create_def queryItemRevision_delete_def
        Let_def split: sum.splits option.splits)

lemma addQueryRevision_not_found:
  "findOne s u i = Inl e \<Longrightarrow> addQueryRevision u i rid now s = (Inl e, s)"
  by (simp add: addQueryRevision_def)

lemma updateMany_nomatch:
  assumes "\<forall>q\<in>set (queryItems s). \<not> wh q"
  shows "queryItem_updateMany wh dto s = (0, s)"
proof -
  have 1: "filter wh (queryItems s) = []"
    using assms by (simp add: filter_empty_conv)
  have 2: "map (\<lambda>q. if wh q then applyUpdate dto q else q) (queryItems s) = queryItems s"
    using assms by (simp add: map_idI)
  show ?thesis by (simp add: queryItem_updateMany_def 1 2)
qed

lemma deleteMany_nomatch:
  assumes "\<forall>q\<in>set (queryItems s). \<not> wh q"
  shows "queryItem_deleteMany wh s = (0, s)"
proof -
  have 1: "filter wh (queryItems s) = []"
    using assms by (simp add: filter_empty_conv)
  have 2: "filter (\<lambda>q. \<not> wh q) (queryItems s) = queryItems s"
    using assms by simp
  show ?thesis by (simp add: queryItem_deleteMany_def 1 2)
qed

section \<open>Frames of the service methods\<close>

lemmas service_defs = update_def remove_def create_def restoreRevision_def findOne_def
  addQueryRevision_def revisionRow_def queryItemRevision_create_def queryItemRevision_delete_def
  revisionsOf_def queryItem_updateMany_def queryItem_deleteMany_def queryItem_update_def
  queryItem_create_def applyUpdate_def emit_def falsy_def
  userPlanMaxQueryCount_def userPlanQueryRevisionLimit_def getPlanConfig_def
  DEFAULT_QUERY_REVISION_LIMIT_def ERR_MAX_QUERY_COUNT_def ERR_PERM_DENIED_def

lemma addQueryRevision_ok_findOne:
  "addQueryRevision u i rid now s = (Inr r, s') \<Longrightarrow> \<exists>q. findOne s u i = Inr q"
  by (cases "findOne s u i") (simp_all add: addQueryRevision_def)

lemma updateMany_frame:
  "workspaces (snd (queryItem_updateMany wh dto s)) = workspaces s
   \<and> teams (snd (queryItem_updateMany wh dto s)) = teams s
   \<and> queryCollections (snd (queryItem_updateMany wh dto s)) = queryCollections s
   \<and> events (snd (queryItem_updateMany wh dto s)) = events s
   \<and> queryItemRevisions (snd (queryItem_updateMany wh dto s)) = queryItemRevisions s
   \<and> planConfigs (snd (queryItem_updateMany wh dto s)) = planConfigs s"
  by (simp add: queryItem_updateMany_def)

lemma update_out_of_scope:
  assumes "\<forall>q\<in>set (queryItems s). qi_id q = i \<longrightarrow> \<not> ownerOrMemberWhere s u q"
  shows "update u i dto revId now s = (Inl NotFoundException, s)"
proof -
  have f: "findOne s u i = Inl NotFoundException"
    using assms by (rule findOne_none)
  have "queryItem_updateMany (\<lambda>q. qi_id q = i \<and> ownerOrMemberWhere s u q) dto s = (0, s)"
    using assms by (intro updateMany_nomatch) blast
  then show ?thesis
    by (simp add: update_def addQueryRevision_not_found [OF f])
qed

text \<open>
  \<^verbatim>\<open>restoreRevision\<close> touches neither the revision table nor the event log, and on
  success the item carries the fields of the revision.
\<close>

lemma restoreRevision_frame:
  "queryItemRevisions (snd (restoreRevision u r s)) = queryItemRevisions s
   \<and> events (snd (restoreRevision u r s)) = events s"
  by (simp add: restoreRevision_def queryItem_update_def split: option.splits sum.splits)

lemma restoreRevision_sets_snapshot:
  assumes r: "find (\<lambda>r. rev_id r = revisionId) (queryItemRevisions s) = Some revision"
    and ok: "restoreRevision u revisionId s = (Inr q, s')"
  shows "qi_id q = rev_queryItemId revision \<and> qi_name q = rev_name revision
         \<and> qi_content q = rev_content revision
         \<and> qi_collectionId q = rev_collectionId revision
         \<and> q \<in> set (queryItems s')"
proof -
  obtain q0 where f: "find (\<lambda>q. qi_id q = rev_queryItemId revision) (queryItems s) = Some q0"
    using ok r
    by (auto simp: restoreRevision_def queryItem_update_def split: sum.splits option.splits)
  have q: "q = q0\<lparr>qi_name := rev_name revision, qi_content := rev_content revision,
                   qi_collectionId := rev_collectionId revision\<rparr>"
    and s': "queryItems s' =
               map (\<lambda>q. if qi_id q = rev_queryItemId revision
                         then q\<lparr>qi_name := rev_name revision, qi_content := rev_content revision,
                                qi_collectionId := rev_collectionId revision\<rparr>
                         else q) (queryItems s)"
    using ok r f
    by (auto simp: restoreRevision_def queryItem_update_def split: sum.splits)
  have q0: "q0 \<in> set (queryItems s)" "qi_id q0 = rev_queryItemId revision"
    using f by (auto simp: find_Some_iff)
  have "q \<in> set (queryItems s')"
    unfolding s' q using q0 by (force simp: image_iff)
  then show ?thesis
    using q q0(2) by simp
qed

lemma create_ok:
  assumes "create u dto newId revId now s = (Inr q, s')"
  shows "\<exists>s1 r s2. queryItem_create q s = Inr s1
           \<and> addQueryRevision u (qi_id q) revId now s1 = (Inr r, s2)
           \<and> s' = emit (qi_id q) s2"
  using assms
  by (auto simp: create_def Let_def split: if_splits option.splits sum.splits prod.splits)

lemma update_ok_matched:
  assumes "addQueryRevision u i revId now s2 = (Inr r, s3)"
    and "workspaces s2 = workspaces s" and "teams s2 = teams s"
    and "queryCollections s2 = queryCollections s"
    and "queryItems s2 = map (\<lambda>q. if qi_id q = i \<and> ownerOrMemberWhere s u q
                                   then applyUpdate dto q else q) (queryItems s)"
  shows "filter (\<lambda>q. qi_id q = i \<and> ownerOrMemberWhere s u q) (queryItems s) \<noteq> []"
proof
  assume e: "filter (\<lambda>q. qi_id q = i \<and> ownerOrMemberWhere s u q) (queryItems s) = []"
  then have n: "\<forall>q\<in>set (queryItems s). \<not> (qi_id q = i \<and> ownerOrMemberWhere s u q)"
    by (simp add: filter_empty_conv)
  then have "map (\<lambda>q. if qi_id q = i \<and> ownerOrMemberWhere s u q
                         then applyUpdate dto q else q) (queryItems s) = queryItems s"
    by (intro map_idI) auto
  then have same: "queryItems s2 = queryItems s"
    using assms(5) by simp
  obtain q where f: "findOne s2 u i = Inr q"
    using addQueryRevision_ok_findOne [OF assms(1)] by blast
  have w: "ownerOrMemberWhere s2 = ownerOrMemberWhere s"
    using assms(2-4) by (rule ownerOrMemberWhere_frame)
  have "q \<in> set (queryItems s) \<and> qi_id q = i \<and> ownerOrMemberWhere s u q"
    using findOne_some [OF f] same w by simp
  then show False using n by blast
qed

section \<open>The oldest revision and its eviction\<close>

lemma oldest_None: "oldest xs = None \<longleftrightarrow> xs = []"
  by (induction xs) (auto split: option.splits)

lemma oldest_Some:
  "oldest xs = Some m \<Longrightarrow> m \<in> set xs \<and> (\<forall>r\<in>set xs. rev_createdAt m \<le> rev_createdAt r)"
proof (induction xs arbitrary: m)
  case Nil
  then show ?case by simp
next
  case (Cons x xs)
  show ?case
  proof (cases "oldest xs")
    case None
    then have "xs = []" by (simp add: oldest_None)
    then show ?thesis using Cons.prems by simp
  next
    case (Some k)
    from Cons.IH [OF Some] have k: "k \<in> set xs" "\<forall>r\<in>set xs. rev_createdAt k \<le> rev_createdAt r"
      by simp_all
    show ?thesis
    proof (cases "rev_createdAt x \<le> rev_createdAt k")
      case True
      then have "m = x" using Cons.prems Some by simp
      then show ?thesis using True k by force
    next
      case False
      then have "m = k" using Cons.prems Some by simp
      then show ?thesis using False k by force
    qed
  qed
qed

lemma filter_key_remove1:
  "distinct (map f xs) \<Longrightarrow> x \<in> set xs \<Longrightarrow> filter (\<lambda>r. f r \<noteq> f x) xs = remove1 x xs"
proof (induction xs)
  case Nil
  then show ?case by simp
next
  case (Cons y ys)
  show ?case
  proof (cases "y = x")
    case True
    have "\<forall>r\<in>set ys. f r \<noteq> f x"
      using Cons.prems(1) True by (metis distinct.simps(2) image_eqI list.simps(9) set_map)
    then have "filter (\<lambda>r. f r \<noteq> f x) ys = ys"
      by simp
    then show ?thesis using True by simp
  next
    case False
    then have "x \<in> set ys" using Cons.prems(2) by simp
    moreover have "f y \<noteq> f x"
      using Cons.prems(1) calculation by auto
    ultimately show ?thesis using Cons False by simp
  qed
qed

lemma revisionRow_sel:
  "rev_id (revisionRow u i q rid now) = rid"
  "rev_queryItemId (revisionRow u i q rid now) = i"
  "rev_createdAt (revisionRow u i q rid now) = now"
  by (simp_all add: revisionRow_def)

lemma addQueryRevision_ok:
  assumes "addQueryRevision u i rid now s = (Inr res, s')"
  shows "\<exists>q. findOne s u i = Inr q \<and> res = revisionRow u i q rid now
           \<and> rid \<notin> set (map rev_id (queryItemRevisions s))
           \<and> s' = (let s1 = s\<lparr>queryItemRevisions := queryItemRevisions s @ [res]\<rparr>
                   in if int (length (revisionsOf s1 i)) > userPlanQueryRevisionLimit s u
                      then (case oldest (revisionsOf s1 i) of
                              None \<Rightarrow> s1
                            | Some old \<Rightarrow> queryItemRevision_delete (rev_id old) s1)
                      else s1)"
  using assms
  by (auto simp: addQueryRevision_def queryItemRevision_create_def Let_def revisionRow_sel
           split: sum.splits if_splits option.splits)

text \<open>
  In the scope of the caller and with a fresh key the revision step succeeds; on the rows
  of the item it is an append followed by \<open>evict\<close>.
\<close>

lemma addQueryRevision_succeeds:
  assumes f: "findOne s u i = Inr q"
    and fresh: "rid \<notin> set (map rev_id (queryItemRevisions s))"
  shows "\<exists>s'. addQueryRevision u i rid now s = (Inr (revisionRow u i q rid now), s')
           \<and> workspaces s' = workspaces s \<and> teams s' = teams s
           \<and> queryCollections s' = queryCollections s \<and> planConfigs s' = planConfigs s
           \<and> queryItems s' = queryItems s \<and> events s' = events s
           \<and> revisionsOf s' i
               = evict (userPlanQueryRevisionLimit s u)
                   (revisionsOf s i @ [revisionRow u i q rid now])
           \<and> set (map rev_id (queryItemRevisions s'))
               \<subseteq> insert rid (set (map rev_id (queryItemRevisions s)))
           \<and> (distinct (map rev_id (queryItemRevisions s))
               \<longrightarrow> distinct (map rev_id (queryItemRevisions s')))"
proof -
  define new where "new = revisionRow u i q rid now"
  define s1 where "s1 = s\<lparr>queryItemRevisions := queryItemRevisions s @ [new]\<rparr>"
  define mine where "mine = revisionsOf s i @ [new]"
  have c: "queryItemRevision_create new s = Inr s1"
    using fresh by (simp add: queryItemRevision_create_def new_def s1_def revisionRow_sel)
  have m: "revisionsOf s1 i = mine"
    by (simp add: revisionsOf_def s1_def mine_def new_def revisionRow_sel)
  have ids1: "map rev_id (queryItemRevisions s1) = map rev_id (queryItemRevisions s) @ [rid]"
    by (simp add: s1_def new_def revisionRow_sel)
  show ?thesis
  proof (cases "int (length mine) > userPlanQueryRevisionLimit s u")
    case False
    then have a: "addQueryRevision u i rid now s = (Inr new, s1)"
      by (simp add: addQueryRevision_def f c m new_def [symmetric])
    have e: "evict (userPlanQueryRevisionLimit s u) mine = mine"
      using False by (simp add: evict_def)
    have "distinct (map rev_id (queryItemRevisions s))
            \<longrightarrow> distinct (map rev_id (queryItemRevisions s1))"
      using fresh by (simp add: ids1)
    moreover have "set (map rev_id (queryItemRevisions s1))
                     \<subseteq> insert rid (set (map rev_id (queryItemRevisions s)))"
      by (simp add: ids1)
    moreover have "workspaces s1 = workspaces s \<and> teams s1 = teams s
           \<and> queryCollections s1 = queryCollections s \<and> planConfigs s1 = planConfigs s
           \<and> queryItems s1 = queryItems s \<and> events s1 = events s"
      by (simp add: s1_def)
    ultimately show ?thesis
      using a m e unfolding new_def [symmetric] mine_def [symmetric] by simp
  next
    case True
    have "mine \<noteq> []" by (simp add: mine_def)
    then obtain old where o: "oldest mine = Some old"
      using oldest_None [of mine] by (cases "oldest mine") auto
    define s2 where "s2 = queryItemRevision_delete (rev_id old) s1"
    have a: "addQueryRevision u i rid now s = (Inr new, s2)"
      using True o by (simp add: addQueryRevision_def f c m new_def [symmetric] s2_def)
    have e: "evict (userPlanQueryRevisionLimit s u) mine
               = filter (\<lambda>r. rev_id r \<noteq> rev_id old) mine"
      using True o by (simp add: evict_def)
    have t2: "queryItemRevisions s2
                = filter (\<lambda>r. rev_id r \<noteq> rev_id old) (queryItemRevisions s1)"
      by (simp add: s2_def queryItemRevision_delete_def)
    have r2: "revisionsOf s2 i = filter (\<lambda>r. rev_id r \<noteq> rev_id old) mine"
      unfolding m [symmetric] by (simp add: revisionsOf_def t2 conj_commute)
    have sub: "set (map rev_id (queryItemRevisions s2))
                 \<subseteq> insert rid (set (map rev_id (queryItemRevisions s)))"
    proof -
      have "set (queryItemRevisions s2) \<subseteq> set (queryItemRevisions s1)"
        by (auto simp: t2)
      then have "set (map rev_id (queryItemRevisions s2))
                   \<subseteq> set (map rev_id (queryItemRevisions s1))"
        by auto
      then show ?thesis by (simp add: ids1)
    qed
    have dist: "distinct (map rev_id (queryItemRevisions s))
                  \<longrightarrow> distinct (map rev_id (queryItemRevisions s2))"
    proof
      assume "distinct (map rev_id (queryItemRevisions s))"
      then have "distinct (map rev_id (queryItemRevisions s1))"
        using fresh by (simp add: ids1)
      then show "distinct (map rev_id (queryItemRevisions s2))"
        unfolding t2 by (rule distinct_map_filter)
    qed
    have fr: "workspaces s2 = workspaces s \<and> teams s2 = teams s
           \<and> queryCollections s2 = queryCollections s \<and> planConfigs s2 = planConfigs s
           \<and> queryItems s2 = queryItems s \<and> events s2 = events s"
      by (simp add: s2_def s1_def queryItemRevision_delete_def)
    show ?thesis
      using a r2 e sub dist fr unfolding new_def [symmetric] mine_def [symmetric] by simp
  qed
qed


section \<open>Successful creation\<close>

lemma find_snoc:
  "\<forall>x\<in>set xs. \<not> P x \<Longrightarrow> P y \<Longrightarrow> find P (xs @ [y]) = Some y"
  by (induction xs) simp_all

lemma acceptable_frame:
  "workspaces s' = workspaces s \<Longrightarrow> queryCollections s' = queryCollections s \<Longrightarrow>
   acceptable s' u c = acceptable s u c"
  by (simp add: acceptable_def collectionOwnedBy_def workspaceOf_def
        cong: option.case_cong prod.case_cong)

lemma create_quota:
  "int (length (filter (ownerWhere s u) (queryItems s))) \<ge> userPlanMaxQueryCount s u \<Longrightarrow>
   create u dto nid rid now s = (Inl ERR_MAX_QUERY_COUNT, s)"
  by (simp add: create_def)

lemma create_succeeds:
  assumes acc: "acceptable s u (dto, nid, rid, now)"
    and below: "int (length (filter (ownerWhere s u) (queryItems s))) < userPlanMaxQueryCount s u"
    and fresh_item: "nid \<notin> set (map qi_id (queryItems s))"
    and fresh_rev: "rid \<notin> set (map rev_id (queryItemRevisions s))"
  shows "\<exists>q s'. create u dto nid rid now s = (Inr q, s')
           \<and> workspaces s' = workspaces s \<and> teams s' = teams s
           \<and> queryCollections s' = queryCollections s \<and> planConfigs s' = planConfigs s
           \<and> queryItems s' = queryItems s @ [q] \<and> qi_id q = nid \<and> ownerWhere s u q
           \<and> set (map rev_id (queryItemRevisions s'))
               \<subseteq> insert rid (set (map rev_id (queryItemRevisions s)))"
proof -
  obtain cid nm ct where dto: "c_collectionId dto = Some cid" "c_name dto = Some nm"
      "c_content dto = Some ct"
    and shape: "cid \<noteq> []" "nm \<noteq> []" "query ct \<noteq> []" "version ct = 1"
    and own: "collectionOwnedBy s u cid"
    using acc by (auto simp: acceptable_def split: option.splits)
  define res where "res = \<lparr>qi_id = nid, qi_collectionId = cid, qi_name = nm,
                            qi_queryVersion = 1, qi_content = ct\<rparr>"
  have rid: "qi_id res = nid"
    by (simp add: res_def)
  define s1 where "s1 = s\<lparr>queryItems := queryItems s @ [res]\<rparr>"
  have c: "queryItem_create res s = Inr s1"
    using fresh_item by (simp add: queryItem_create_def res_def s1_def)
  have w1: "ownerOrMemberWhere s1 = ownerOrMemberWhere s"
    by (rule ownerOrMemberWhere_frame) (simp_all add: s1_def)
  have vis: "ownerOrMemberWhere s1 u res"
    unfolding w1 using own by (simp add: ownerOrMemberWhere_def res_def)
  have "\<forall>x\<in>set (queryItems s). \<not> (qi_id x = nid \<and> ownerOrMemberWhere s1 u x)"
    using fresh_item by auto
  then have "find (\<lambda>x. qi_id x = nid \<and> ownerOrMemberWhere s1 u x) (queryItems s @ [res])
               = Some res"
    using vis by (intro find_snoc) (simp_all add: res_def)
  then have f: "findOne s1 u nid = Inr res"
    by (simp add: findOne_def s1_def)
  have fresh1: "rid \<notin> set (map rev_id (queryItemRevisions s1))"
    using fresh_rev by (simp add: s1_def)
  obtain s2 where a: "addQueryRevision u nid rid now s1 = (Inr (revisionRow u nid res rid now), s2)"
    and fr: "workspaces s2 = workspaces s1" "teams s2 = teams s1"
      "queryCollections s2 = queryCollections s1" "planConfigs s2 = planConfigs s1"
      "queryItems s2 = queryItems s1"
    and ids: "set (map rev_id (queryItemRevisions s2))
               \<subseteq> insert rid (set (map rev_id (queryItemRevisions s1)))"
    using addQueryRevision_succeeds [OF f fresh1, of now] by blast
  have cr: "create u dto nid rid now s = (Inr res, emit nid s2)"
    using below dto shape own c a
    by (simp add: create_def falsy_def res_def [symmetric] rid Let_def)
  have "ownerWhere s u res"
    using own by (simp add: ownerWhere_def res_def)
  then show ?thesis
    using cr fr ids by (simp add: emit_def s1_def res_def)
qed

lemma createAll_snoc:
  "createAll u (cs @ [(dto, nid, rid, now)]) s
     = (fst (createAll u cs s) @ [fst (create u dto nid rid now (snd (createAll u cs s)))],
        snd (create u dto nid rid now (snd (createAll u cs s))))"
  by (induction cs arbitrary: s) (auto split: prod.splits)

lemma userPlanMaxQueryCount_frame:
  "planConfigs s' = planConfigs s \<Longrightarrow> userPlanMaxQueryCount s' u = userPlanMaxQueryCount s u"
  by (simp add: userPlanMaxQueryCount_def getPlanConfig_def)

lemma createAll_good:
  assumes "\<forall>c\<in>set cs. acceptable s u c"
    and "int (length (filter (ownerWhere s u) (queryItems s))) + int (length cs)
           \<le> userPlanMaxQueryCount s u"
    and "distinct (map newItemId cs)"
    and "set (map newItemId cs) \<inter> set (map qi_id (queryItems s)) = {}"
    and "distinct (map newRevisionId cs)"
    and "set (map newRevisionId cs) \<inter> set (map rev_id (queryItemRevisions s)) = {}"
  shows "\<exists>qs s'. createAll u cs s = (map Inr qs, s') \<and> length qs = length cs
           \<and> workspaces s' = workspaces s \<and> queryCollections s' = queryCollections s
           \<and> planConfigs s' = planConfigs s
           \<and> length (filter (ownerWhere s u) (queryItems s'))
               = length (filter (ownerWhere s u) (queryItems s)) + length cs"
  using assms
proof (induction cs arbitrary: s)
  case Nil
  show ?case by simp
next
  case (Cons c cs)
  obtain dto nid rid now where c: "c = (dto, nid, rid, now)"
    by (cases c)
  have acc: "acceptable s u (dto, nid, rid, now)"
    using Cons.prems(1) c by simp
  have below: "int (length (filter (ownerWhere s u) (queryItems s))) < userPlanMaxQueryCount s u"
    using Cons.prems(2) by simp
  have fi: "nid \<notin> set (map qi_id (queryItems s))"
    using Cons.prems(4) by (simp add: c newItemId_def)
  have fr: "rid \<notin> set (map rev_id (queryItemRevisions s))"
    using Cons.prems(6) by (simp add: c newRevisionId_def)
  obtain q s1 where all: "create u dto nid rid now s = (Inr q, s1)
           \<and> workspaces s1 = workspaces s \<and> teams s1 = teams s
           \<and> queryCollections s1 = queryCollections s \<and> planConfigs s1 = planConfigs s
           \<and> queryItems s1 = queryItems s @ [q] \<and> qi_id q = nid \<and> ownerWhere s u q
           \<and> set (map rev_id (queryItemRevisions s1))
               \<subseteq> insert rid (set (map rev_id (queryItemRevisions s)))"
    using create_succeeds [OF acc below fi fr] by (elim exE) (rule that)
  have cr: "create u dto nid rid now s = (Inr q, s1)"
    and st: "workspaces s1 = workspaces s" "queryCollections s1 = queryCollections s"
      "planConfigs s1 = planConfigs s"
    and items: "queryItems s1 = queryItems s @ [q]" and qid: "qi_id q = nid"
    and own: "ownerWhere s u q"
    and ids: "set (map rev_id (queryItemRevisions s1))
               \<subseteq> insert rid (set (map rev_id (queryItemRevisions s)))"
    using all by simp_all
  have ow: "ownerWhere s1 = ownerWhere s"
    using st(1,2) by (rule ownerWhere_frame)
  have cnt1: "length (filter (ownerWhere s u) (queryItems s1))
                = length (filter (ownerWhere s u) (queryItems s)) + 1"
    using own by (simp add: items)
  have acc_eq: "acceptable s1 u = acceptable s u"
    by (intro ext) (rule acceptable_frame [OF st(1,2)])
  have 1: "\<forall>c\<in>set cs. acceptable s1 u c"
    using Cons.prems(1) by (simp add: acc_eq)
  have 2: "int (length (filter (ownerWhere s1 u) (queryItems s1))) + int (length cs)
             \<le> userPlanMaxQueryCount s1 u"
    using Cons.prems(2) by (simp add: ow cnt1 userPlanMaxQueryCount_frame [OF st(3)])
  have 3: "distinct (map newItemId cs)"
    using Cons.prems(3) by simp
  have 4: "set (map newItemId cs) \<inter> set (map qi_id (queryItems s1)) = {}"
  proof -
    have n: "newItemId c = nid"
      by (simp add: c newItemId_def)
    have a: "nid \<notin> set (map newItemId cs)"
      using Cons.prems(3) n by simp
    have "set (map newItemId cs) \<subseteq> set (map newItemId (c # cs))"
      by auto
    then have b: "set (map newItemId cs) \<inter> set (map qi_id (queryItems s)) = {}"
      using Cons.prems(4) by blast
    have e: "set (map qi_id (queryItems s1)) = insert nid (set (map qi_id (queryItems s)))"
      by (simp add: items qid)
    show ?thesis
      unfolding e using a b by simp
  qed
  have 5: "distinct (map newRevisionId cs)"
    using Cons.prems(5) by simp
  have 6: "set (map newRevisionId cs) \<inter> set (map rev_id (queryItemRevisions s1)) = {}"
  proof -
    have n: "newRevisionId c = rid"
      by (simp add: c newRevisionId_def)
    have a: "rid \<notin> set (map newRevisionId cs)"
      using Cons.prems(5) n by simp
    have "set (map newRevisionId cs) \<subseteq> set (map newRevisionId (c # cs))"
      by auto
    then have b: "set (map newRevisionId cs) \<inter> set (map rev_id (queryItemRevisions s)) = {}"
      using Cons.prems(6) by blast
    show ?thesis
      using a b ids by blast
  qed
  obtain qs s2 where all2: "createAll u cs s1 = (map Inr qs, s2) \<and> length qs = length cs
           \<and> workspaces s2 = workspaces s1 \<and> queryCollections s2 = queryCollections s1
           \<and> planConfigs s2 = planConfigs s1
           \<and> length (filter (ownerWhere s1 u) (queryItems s2))
               = length (filter (ownerWhere s1 u) (queryItems s1)) + length cs"
    using Cons.IH [OF 1 2 3 4 5 6] by (elim exE) (rule that)
  have rest: "createAll u cs s1 = (map Inr qs, s2)" and len: "length qs = length cs"
    and st2: "workspaces s2 = workspaces s1" "queryCollections s2 = queryCollections s1"
      "planConfigs s2 = planConfigs s1"
    and cnt2: "length (filter (ownerWhere s1 u) (queryItems s2))
                = length (filter (ownerWhere s1 u) (queryItems s1)) + length cs"
    using all2 by simp_all
  have run: "createAll u (c # cs) s = (map Inr (q # qs), s2)"
    using cr rest by (simp add: c)
  have len': "length (q # qs) = length (c # cs)"
    using len by simp
  have cnt': "length (filter (ownerWhere s u) (queryItems s2))
                = length (filter (ownerWhere s u) (queryItems s)) + length (c # cs)"
    using cnt2 cnt1 by (simp add: ow)
  have st': "workspaces s2 = workspaces s \<and> queryCollections s2 = queryCollections s
             \<and> planConfigs s2 = planConfigs s"
    using st st2 by simp
  show ?case
    unfolding run using len' cnt' st' by (intro exI [of _ "q # qs"] exI [of _ s2] conjI) simp_all
qed

section \<open>One update of an item in scope\<close>

lemma filter_key_single:
  "distinct (map f xs) \<Longrightarrow> x \<in> set xs \<Longrightarrow> filter (\<lambda>y. f y = f x) xs = [x]"
proof (induction xs)
  case Nil
  then show ?case by simp
next
  case (Cons y ys)
  show ?case
  proof (cases "y = x")
    case True
    have "\<forall>r\<in>set ys. f r \<noteq> f x"
      using Cons.prems(1) True by (metis distinct.simps(2) image_eqI list.simps(9) set_map)
    then have "filter (\<lambda>y. f y = f x) ys = []"
      by (simp add: filter_empty_conv)
    then show ?thesis using True by simp
  next
    case False
    then have x: "x \<in> set ys" using Cons.prems(2) by simp
    then have "f y \<noteq> f x"
      using Cons.prems(1) by (metis distinct.simps(2) image_eqI list.simps(9) set_map)
    moreover have "filter (\<lambda>y. f y = f x) ys = [x]"
      using Cons.IH Cons.prems(1) x by simp
    ultimately show ?thesis by simp
  qed
qed

lemma find_unique_key:
  assumes "distinct (map f xs)" and "x \<in> set xs" and "P x" and "\<forall>y. P y \<longrightarrow> f y = f x"
  shows "find P xs = Some x"
  using assms(1,2)
proof (induction xs)
  case Nil
  then show ?case by simp
next
  case (Cons y ys)
  show ?case
  proof (cases "y = x")
    case True
    then show ?thesis using assms(3) by simp
  next
    case False
    then have x: "x \<in> set ys" using Cons.prems(2) by simp
    then have "f y \<noteq> f x"
      using Cons.prems(1) by (metis distinct.simps(2) image_eqI list.simps(9) set_map)
    then have "\<not> P y" using assms(4) by blast
    moreover have "find P ys = Some x"
      using Cons.IH Cons.prems(1) x by simp
    ultimately show ?thesis by simp
  qed
qed

lemma applyUpdate_id: "qi_id (applyUpdate dto q) = qi_id q"
  by (simp add: applyUpdate_def)

lemma userPlanQueryRevisionLimit_frame:
  "planConfigs s' = planConfigs s \<Longrightarrow>
   userPlanQueryRevisionLimit s' u = userPlanQueryRevisionLimit s u"
  by (simp add: userPlanQueryRevisionLimit_def getPlanConfig_def)

lemma update_step:
  assumes di: "distinct (map qi_id (queryItems s))"
    and q0: "q0 \<in> set (queryItems s)" and i: "qi_id q0 = i"
    and vis0: "ownerOrMemberWhere s u q0"
    and vis1: "ownerOrMemberWhere s u (applyUpdate dto q0)"
    and fresh: "rid \<notin> set (map rev_id (queryItemRevisions s))"
  shows "\<exists>s'. update u i dto rid now s = (Inr 1, s')
           \<and> workspaces s' = workspaces s \<and> teams s' = teams s
           \<and> queryCollections s' = queryCollections s \<and> planConfigs s' = planConfigs s
           \<and> distinct (map qi_id (queryItems s'))
           \<and> applyUpdate dto q0 \<in> set (queryItems s')
           \<and> revisionsOf s' i
               = evict (userPlanQueryRevisionLimit s u)
                   (revisionsOf s i @ [revisionRow u i (applyUpdate dto q0) rid now])
           \<and> set (map rev_id (queryItemRevisions s'))
               \<subseteq> insert rid (set (map rev_id (queryItemRevisions s)))
           \<and> (distinct (map rev_id (queryItemRevisions s))
               \<longrightarrow> distinct (map rev_id (queryItemRevisions s')))"
proof -
  define wh where "wh = (\<lambda>q. qi_id q = i \<and> ownerOrMemberWhere s u q)"
  define g where "g = (\<lambda>q. if wh q then applyUpdate dto q else q)"
  define s1 where "s1 = s\<lparr>queryItems := map g (queryItems s)\<rparr>"
  define s2 where "s2 = emit i s1"
  define q1 where "q1 = applyUpdate dto q0"
  have "filter (\<lambda>y. qi_id y = qi_id q0) (queryItems s) = [q0]"
    using di q0 by (rule filter_key_single)
  then have "filter (ownerOrMemberWhere s u) (filter (\<lambda>y. qi_id y = i) (queryItems s)) = [q0]"
    using vis0 i by simp
  then have cnt: "filter wh (queryItems s) = [q0]"
    by (simp add: wh_def conj_commute)
  have um: "queryItem_updateMany wh dto s = (1, s1)"
    by (simp add: queryItem_updateMany_def cnt s1_def g_def)
  have gid: "qi_id \<circ> g = qi_id"
    by (auto simp: g_def applyUpdate_id fun_eq_iff)
  have di2: "distinct (map qi_id (queryItems s2))"
    using di by (simp add: s2_def s1_def emit_def gid)
  have "wh q0" using vis0 i by (simp add: wh_def)
  then have "g q0 = q1" by (simp add: g_def q1_def)
  then have in2: "q1 \<in> set (queryItems s2)"
    using q0 by (force simp: s2_def s1_def emit_def)
  have w2: "ownerOrMemberWhere s2 = ownerOrMemberWhere s"
    by (rule ownerOrMemberWhere_frame) (simp_all add: s2_def s1_def emit_def)
  have q1i: "qi_id q1 = i"
    using i by (simp add: q1_def applyUpdate_id)
  have "find (\<lambda>q. qi_id q = i \<and> ownerOrMemberWhere s2 u q) (queryItems s2) = Some q1"
    using di2 in2
  proof (rule find_unique_key)
    show "qi_id q1 = i \<and> ownerOrMemberWhere s2 u q1"
      using q1i vis1 by (simp add: w2 q1_def)
    show "\<forall>y. qi_id y = i \<and> ownerOrMemberWhere s2 u y \<longrightarrow> qi_id y = qi_id q1"
      using q1i by simp
  qed
  then have f: "findOne s2 u i = Inr q1"
    by (simp add: findOne_def)
  have fresh2: "rid \<notin> set (map rev_id (queryItemRevisions s2))"
    using fresh by (simp add: s2_def s1_def emit_def)
  obtain s3 where all: "addQueryRevision u i rid now s2 = (Inr (revisionRow u i q1 rid now), s3)
           \<and> workspaces s3 = workspaces s2 \<and> teams s3 = teams s2
           \<and> queryCollections s3 = queryCollections s2 \<and> planConfigs s3 = planConfigs s2
           \<and> queryItems s3 = queryItems s2 \<and> events s3 = events s2
           \<and> revisionsOf s3 i
               = evict (userPlanQueryRevisionLimit s2 u)
                   (revisionsOf s2 i @ [revisionRow u i q1 rid now])
           \<and> set (map rev_id (queryItemRevisions s3))
               \<subseteq> insert rid (set (map rev_id (queryItemRevisions s2)))
           \<and> (distinct (map rev_id (queryItemRevisions s2))
               \<longrightarrow> distinct (map rev_id (queryItemRevisions s3)))"
    using addQueryRevision_succeeds [OF f fresh2, of now] by (elim exE) (rule that)
  have same: "workspaces s2 = workspaces s" "teams s2 = teams s"
    "queryCollections s2 = queryCollections s" "planConfigs s2 = planConfigs s"
    "queryItemRevisions s2 = queryItemRevisions s"
    by (simp_all add: s2_def s1_def emit_def)
  have l2: "userPlanQueryRevisionLimit s2 u = userPlanQueryRevisionLimit s u"
    using same(4) by (rule userPlanQueryRevisionLimit_frame)
  have r2: "revisionsOf s2 i = revisionsOf s i"
    by (simp add: revisionsOf_def same(5))
  have upd: "update u i dto rid now s = (Inr 1, s3)"
    using um all by (simp add: update_def wh_def [symmetric] s2_def [symmetric])
  show ?thesis
    unfolding upd q1_def [symmetric]
    using all di2 in2 by (intro exI [of _ s3]) (simp add: same l2 r2)
qed

section \<open>Eviction over three inserts under limit 2\<close>

lemma evict_short: "length rs \<le> 2 \<Longrightarrow> evict 2 rs = rs"
  by (simp add: evict_def)

lemma evict_head:
  assumes "rev_createdAt x < rev_createdAt y" and "rev_createdAt y < rev_createdAt z"
    and "rev_id x \<noteq> rev_id y" and "rev_id x \<noteq> rev_id z"
  shows "evict 2 [x, y, z] = [y, z]"
proof -
  have "oldest [x, y, z] = Some x"
    using assms(1,2) by simp
  then show ?thesis
    using assms(3,4) by (auto simp: evict_def)
qed

lemma evict_two_old:
  assumes "rev_createdAt a < rev_createdAt n" and "rev_createdAt b < rev_createdAt n"
    and "rev_id a \<noteq> rev_id b" and "rev_id a \<noteq> rev_id n" and "rev_id b \<noteq> rev_id n"
  shows "evict 2 [a, b, n] = (if rev_createdAt a \<le> rev_createdAt b then [b, n] else [a, n])"
proof (cases "rev_createdAt a \<le> rev_createdAt b")
  case True
  then have "oldest [a, b, n] = Some a"
    using assms(1,2) by simp
  then show ?thesis
    using True assms(3,4) by (auto simp: evict_def)
next
  case False
  then have "oldest [a, b, n] = Some b"
    using assms(1,2) by simp
  then show ?thesis
    using False assms(3,5) by (auto simp: evict_def)
qed

lemma evict_three:
  assumes len: "length R \<le> 2"
    and old: "\<forall>r\<in>set R. rev_createdAt r < rev_createdAt n1"
    and t12: "rev_createdAt n1 < rev_createdAt n2"
    and t23: "rev_createdAt n2 < rev_createdAt n3"
    and d: "distinct (map rev_id (R @ [n1, n2, n3]))"
  shows "evict 2 (evict 2 (evict 2 (R @ [n1]) @ [n2]) @ [n3]) = [n2, n3]"
proof -
  have ne: "rev_id n1 \<noteq> rev_id n2" "rev_id n1 \<noteq> rev_id n3"
    using d by auto
  have last: "evict 2 [n1, n2, n3] = [n2, n3]"
    using t12 t23 ne by (rule evict_head)
  consider "R = []" | a where "R = [a]" | a b where "R = [a, b]"
    using len
    by (cases R; cases "tl R"; cases "tl (tl R)") auto
  then show ?thesis
  proof cases
    case 1
    then show ?thesis
      by (simp add: evict_short last)
  next
    case 2
    have "rev_createdAt a < rev_createdAt n1" "rev_id a \<noteq> rev_id n1" "rev_id a \<noteq> rev_id n2"
      using old d 2 by auto
    then have "evict 2 [a, n1, n2] = [n1, n2]"
      using t12 by (intro evict_head)
    then show ?thesis
      using 2 by (simp add: evict_short last)
  next
    case 3
    have o: "rev_createdAt a < rev_createdAt n1" "rev_createdAt b < rev_createdAt n1"
      using old 3 by auto
    have i: "rev_id a \<noteq> rev_id b" "rev_id a \<noteq> rev_id n1" "rev_id b \<noteq> rev_id n1"
      "rev_id a \<noteq> rev_id n2" "rev_id b \<noteq> rev_id n2"
      using d 3 by auto
    have e1: "evict 2 [a, b, n1]
                = (if rev_createdAt a \<le> rev_createdAt b then [b, n1] else [a, n1])"
      using o i(1-3) by (rule evict_two_old)
    have e2a: "evict 2 [a, n1, n2] = [n1, n2]"
      using o(1) t12 i(2,4) by (rule evict_head)
    have e2b: "evict 2 [b, n1, n2] = [n1, n2]"
      using o(2) t12 i(3,5) by (rule evict_head)
    show ?thesis
      using 3 by (simp add: e1 e2a e2b last)
  qed
qed

section \<open>Quota defaults\<close>

text \<open>
  Claim C8. The resolved document limit is 0 when the user has no plan configuration or
  the configuration leaves \<^verbatim>\<open>maxQueryCount\<close> unset, and the resolved revision limit is
  10 when there is no configuration or it leaves \<^verbatim>\<open>queryRevisionLimit\<close> unset.
\<close>

theorem C8_quota_defaults:
  "((getPlanConfig s userId = None
       \<or> (\<exists>p. getPlanConfig s userId = Some p \<and> maxQueryCount p = None))
      \<longrightarrow> userPlanMaxQueryCount s userId = 0)
   \<and> ((getPlanConfig s userId = None
       \<or> (\<exists>p. getPlanConfig s userId = Some p \<and> queryRevisionLimit p = None))
      \<longrightarrow> userPlanQueryRevisionLimit s userId = 10)"
  by (auto simp: userPlanMaxQueryCount_def userPlanQueryRevisionLimit_def
        DEFAULT_QUERY_REVISION_LIMIT_def)

theorem C8_quota_defaults_witness:
  "getPlanConfig exampleStore ''bob'' = None
   \<and> userPlanMaxQueryCount exampleStore ''bob'' = 0
   \<and> getPlanConfig exampleStore ''dave''
       = Some \<lparr>maxQueryCount = Some 1, queryRevisionLimit = None\<rparr>
   \<and> userPlanQueryRevisionLimit exampleStore ''dave'' = 10"
proof -
  have b: "getPlanConfig exampleStore ''bob'' = None"
    by (simp add: getPlanConfig_def exampleStore_def)
  have d: "getPlanConfig exampleStore ''dave''
             = Some \<lparr>maxQueryCount = Some 1, queryRevisionLimit = None\<rparr>"
    by (simp add: getPlanConfig_def exampleStore_def)
  show ?thesis
    using b d C8_quota_defaults [of exampleStore "''bob''"]
      C8_quota_defaults [of exampleStore "''dave''"]
    by simp
qed

section \<open>Tenancy isolation\<close>

text \<open>
  Claim C9. When every query item with the given id lies outside the user's
  owner-or-member scope (also when such an item exists and belongs to another tenant),
  \<^verbatim>\<open>findOne\<close> throws NotFoundException and \<^verbatim>\<open>update\<close> throws NotFoundException and
  leaves the store and the event log as they were; when every such item lies outside
  the user's owner-only scope, \<^verbatim>\<open>remove\<close> deletes nothing, emits nothing and returns
  the count 0.
\<close>

theorem C9_out_of_scope:
  "((\<forall>q\<in>set (queryItems s). qi_id q = i \<longrightarrow> \<not> ownerOrMemberWhere s u q) \<longrightarrow>
      findOne s u i = Inl NotFoundException
      \<and> update u i dto revId now s = (Inl NotFoundException, s))
   \<and> ((\<forall>q\<in>set (queryItems s). qi_id q = i \<longrightarrow> \<not> ownerWhere s u q) \<longrightarrow>
      remove u i s = (Inr 0, s))"
proof (intro conjI impI)
  assume a: "\<forall>q\<in>set (queryItems s). qi_id q = i \<longrightarrow> \<not> ownerOrMemberWhere s u q"
  show "findOne s u i = Inl NotFoundException"
    using a by (rule findOne_none)
  show "update u i dto revId now s = (Inl NotFoundException, s)"
    using a by (rule update_out_of_scope)
next
  assume a: "\<forall>q\<in>set (queryItems s). qi_id q = i \<longrightarrow> \<not> ownerWhere s u q"
  have "queryItem_deleteMany (\<lambda>q. qi_id q = i \<and> ownerWhere s u q) s = (0, s)"
    using a by (intro deleteMany_nomatch) blast
  then show "remove u i s = (Inr 0, s)"
    by (simp add: remove_def)
qed

theorem C9_out_of_scope_witness:
  "itemQ1 \<in> set (queryItems exampleStore) \<and> qi_id itemQ1 = ''q1''
   \<and> \<not> ownerOrMemberWhere exampleStore ''bob'' itemQ1
   \<and> \<not> ownerWhere exampleStore ''carol'' itemQ1
   \<and> findOne exampleStore ''bob'' ''q1'' = Inl NotFoundException
   \<and> update ''bob'' ''q1'' \<lparr>u_name = Some ''mine'', u_collectionId = Some ''c2'', u_content = None\<rparr>
        ''r2'' 9 exampleStore = (Inl NotFoundException, exampleStore)
   \<and> remove ''carol'' ''q1'' exampleStore = (Inr 0, exampleStore)"
proof -
  have b: "\<forall>q\<in>set (queryItems exampleStore). qi_id q = ''q1'' \<longrightarrow>
             \<not> ownerOrMemberWhere exampleStore ''bob'' q"
    by (simp add: example_defs scope_defs)
  have c: "\<forall>q\<in>set (queryItems exampleStore). qi_id q = ''q1'' \<longrightarrow>
             \<not> ownerWhere exampleStore ''carol'' q"
    by (simp add: example_defs scope_defs)
  have 1: "itemQ1 \<in> set (queryItems exampleStore) \<and> qi_id itemQ1 = ''q1''
           \<and> \<not> ownerOrMemberWhere exampleStore ''bob'' itemQ1
           \<and> \<not> ownerWhere exampleStore ''carol'' itemQ1"
    by (simp add: example_defs scope_defs)
  show ?thesis
    using 1 b c
      C9_out_of_scope [of exampleStore "''q1''" "''bob''"
        "\<lparr>u_name = Some ''mine'', u_collectionId = Some ''c2'', u_content = None\<rparr>" "''r2''" 9]
      C9_out_of_scope [of exampleStore "''q1''" "''carol''"]
    by blast
qed

text \<open>
  Claim C10. The revision-recording step reads its snapshot through the scoped
  \<^verbatim>\<open>findOne\<close>: when no query item with the given id is in the caller's owner-or-member
  scope, it throws NotFoundException before any insert, so the store (and with it the
  revision table) is unchanged.
\<close>

theorem C10_no_revision_out_of_scope:
  "\<forall>q\<in>set (queryItems s). qi_id q = queryId \<longrightarrow> \<not> ownerOrMemberWhere s userId q \<Longrightarrow>
   addQueryRevision userId queryId revId now s = (Inl NotFoundException, s)"
  by (simp add: addQueryRevision_not_found findOne_none)

theorem C10_no_revision_out_of_scope_witness:
  "\<not> ownerOrMemberWhere exampleStore ''bob'' itemQ1
   \<and> addQueryRevision ''bob'' ''q1'' ''r2'' 9 exampleStore = (Inl NotFoundException, exampleStore)"
proof -
  have b: "\<forall>q\<in>set (queryItems exampleStore). qi_id q = ''q1'' \<longrightarrow>
             \<not> ownerOrMemberWhere exampleStore ''bob'' q"
    by (simp add: example_defs scope_defs)
  have 1: "\<not> ownerOrMemberWhere exampleStore ''bob'' itemQ1"
    by (simp add: example_defs scope_defs)
  show ?thesis
    using 1 C10_no_revision_out_of_scope [OF b, of "''r2''" 9] by simp
qed

section \<open>Creation\<close>

text \<open>
  Claim C3, as stated, at a concrete input: Alice, below her quota, sends a dto with an
  empty name that names Bob's collection c2. \<^verbatim>\<open>create\<close> throws the validation error
  BadRequestException, not the permission error: the shape check runs before the
  ownership check.
\<close>

theorem C3_malformed_dto_counterexample:
  "\<not> collectionOwnedBy exampleStore ''alice'' ''c2''
   \<and> create ''alice'' \<lparr>c_collectionId = Some ''c2'', c_name = Some [], c_content = Some contentA\<rparr>
        ''q2'' ''r2'' 9 exampleStore = (Inl BadRequestException, exampleStore)
   \<and> BadRequestException \<noteq> ERR_PERM_DENIED"
  by (simp add: service_defs example_defs scope_defs)

text \<open>
  Claim C3, amended. When the dto names a collection that is not in a workspace owned by
  the user, \<^verbatim>\<open>create\<close> always fails and stores nothing. The error follows the order of
  the checks: quota-exceeded when the user is at or over the document limit, otherwise
  the validation error when the dto is malformed, otherwise permission-denied.
\<close>

theorem C3_create_foreign_collection:
  assumes "c_collectionId dto = Some c" and "\<not> collectionOwnedBy s u c"
  shows "create u dto newId revId now s =
           (Inl (if int (length (filter (ownerWhere s u) (queryItems s))) \<ge> userPlanMaxQueryCount s u
                 then ERR_MAX_QUERY_COUNT
                 else if malformed dto then BadRequestException
                 else ERR_PERM_DENIED), s)"
  using assms
  by (simp add: create_def malformed_def falsy_def split: option.splits)

theorem C3_create_foreign_collection_witness:
  "\<not> collectionOwnedBy exampleStore ''alice'' ''c2''
   \<and> create ''alice'' \<lparr>c_collectionId = Some ''c2'', c_name = Some ''n'', c_content = Some contentA\<rparr>
        ''q2'' ''r2'' 9 exampleStore = (Inl ERR_PERM_DENIED, exampleStore)"
proof -
  have 1: "\<not> collectionOwnedBy exampleStore ''alice'' ''c2''"
    by (simp add: example_defs scope_defs)
  have 2: "c_collectionId \<lparr>c_collectionId = Some ''c2'', c_name = Some ''n'', c_content = Some contentA\<rparr> = Some ''c2''"
    by simp
  have 3: "\<not> int (length (filter (ownerWhere exampleStore ''alice'') (queryItems exampleStore)))
             \<ge> userPlanMaxQueryCount exampleStore ''alice''"
    by (simp add: example_defs scope_defs userPlanMaxQueryCount_def getPlanConfig_def)
  have 4: "\<not> malformed \<lparr>c_collectionId = Some ''c2'', c_name = Some ''n'', c_content = Some contentA\<rparr>"
    by (simp add: malformed_def falsy_def contentA_def)
  show ?thesis
    using 1 3 4 C3_create_foreign_collection [OF 2 1, of "''q2''" "''r2''" 9] by simp
qed

text \<open>
  Claim C4. Let the user's resolved document limit be \<open>M\<close> and let the user own no
  query item yet. The user issues \<open>M + 1\<close> \<^verbatim>\<open>create\<close> calls one after the other; the
  first \<open>M\<close> are well-formed, name collections the user owns and get fresh keys from the
  store. Then each of the first \<open>M\<close> calls succeeds, the \<open>M\<close>-th included, and call
  \<open>M + 1\<close>, whatever its dto, fails with ERR_MAX_QUERY_COUNT. With no plan \<open>M\<close> is 0
  and this is the very first call.
\<close>

theorem C4_quota_sequence:
  assumes "userPlanMaxQueryCount s u = int M"
    and "filter (ownerWhere s u) (queryItems s) = []"
    and "length good = M"
    and "\<forall>c\<in>set good. acceptable s u c"
    and "distinct (map newItemId good)"
    and "set (map newItemId good) \<inter> set (map qi_id (queryItems s)) = {}"
    and "distinct (map newRevisionId good)"
    and "set (map newRevisionId good) \<inter> set (map rev_id (queryItemRevisions s)) = {}"
  shows "\<exists>qs. length qs = M
           \<and> fst (createAll u (good @ [extra]) s) = map Inr qs @ [Inl ERR_MAX_QUERY_COUNT]"
proof -
  have le: "int (length (filter (ownerWhere s u) (queryItems s))) + int (length good)
              \<le> userPlanMaxQueryCount s u"
    using assms(1-3) by simp
  obtain qs s' where all: "createAll u good s = (map Inr qs, s') \<and> length qs = length good
           \<and> workspaces s' = workspaces s \<and> queryCollections s' = queryCollections s
           \<and> planConfigs s' = planConfigs s
           \<and> length (filter (ownerWhere s u) (queryItems s'))
               = length (filter (ownerWhere s u) (queryItems s)) + length good"
    using createAll_good [OF assms(4) le assms(5-8)] by (elim exE) (rule that)
  have run: "createAll u good s = (map Inr qs, s')" and len: "length qs = length good"
    and st: "workspaces s' = workspaces s" "queryCollections s' = queryCollections s"
      "planConfigs s' = planConfigs s"
    and cnt: "length (filter (ownerWhere s u) (queryItems s'))
                = length (filter (ownerWhere s u) (queryItems s)) + length good"
    using all by simp_all
  have ow: "ownerWhere s' = ownerWhere s"
    using st(1,2) by (rule ownerWhere_frame)
  have full: "int (length (filter (ownerWhere s' u) (queryItems s'))) \<ge> userPlanMaxQueryCount s' u"
    using cnt assms(1-3) by (simp add: ow userPlanMaxQueryCount_frame [OF st(3)])
  obtain dto nid rid now where e: "extra = (dto, nid, rid, now)"
    by (cases extra)
  have "fst (createAll u (good @ [extra]) s) = map Inr qs @ [Inl ERR_MAX_QUERY_COUNT]"
    unfolding e createAll_snoc using run create_quota [OF full] by simp
  then show ?thesis
    using len assms(3) by blast
qed

theorem C4_quota_sequence_witness:
  "userPlanMaxQueryCount exampleStore ''dave'' = 1
   \<and> (\<exists>q. fst (createAll ''dave''
               [(\<lparr>c_collectionId = Some ''c3'', c_name = Some ''n'', c_content = Some contentA\<rparr>,
                 ''q2'', ''r2'', 9),
                (\<lparr>c_collectionId = Some ''c3'', c_name = Some ''m'', c_content = Some contentB\<rparr>,
                 ''q3'', ''r3'', 10)]
               exampleStore)
          = [Inr q, Inl ERR_MAX_QUERY_COUNT])
   \<and> getPlanConfig exampleStore ''bob'' = None
   \<and> fst (createAll ''bob''
               [(\<lparr>c_collectionId = Some ''c2'', c_name = Some ''n'', c_content = Some contentA\<rparr>,
                 ''q2'', ''r2'', 9)]
               exampleStore)
          = [Inl ERR_MAX_QUERY_COUNT]"
proof -
  define g :: createCall where
    "g = (\<lparr>c_collectionId = Some ''c3'', c_name = Some ''n'', c_content = Some contentA\<rparr>,
          ''q2'', ''r2'', 9)"
  define e :: createCall where
    "e = (\<lparr>c_collectionId = Some ''c3'', c_name = Some ''m'', c_content = Some contentB\<rparr>,
          ''q3'', ''r3'', 10)"
  define b :: createCall where
    "b = (\<lparr>c_collectionId = Some ''c2'', c_name = Some ''n'', c_content = Some contentA\<rparr>,
          ''q2'', ''r2'', 9)"
  have m1: "userPlanMaxQueryCount exampleStore ''dave'' = int 1"
    by (simp add: userPlanMaxQueryCount_def getPlanConfig_def exampleStore_def)
  have n1: "filter (ownerWhere exampleStore ''dave'') (queryItems exampleStore) = []"
    by (simp add: example_defs scope_defs)
  have a1: "\<forall>c\<in>set [g]. acceptable exampleStore ''dave'' c"
    by (simp add: g_def acceptable_def example_defs scope_defs)
  have i1: "set (map newItemId [g]) \<inter> set (map qi_id (queryItems exampleStore)) = {}"
    by (simp add: g_def newItemId_def example_defs)
  have r1: "set (map newRevisionId [g]) \<inter> set (map rev_id (queryItemRevisions exampleStore)) = {}"
    by (simp add: g_def newRevisionId_def example_defs)
  obtain qs where l: "length qs = 1"
    and d: "fst (createAll ''dave'' ([g] @ [e]) exampleStore) = map Inr qs @ [Inl ERR_MAX_QUERY_COUNT]"
    using C4_quota_sequence [OF m1 n1 _ a1 _ i1 _ r1, of e] by auto
  obtain q where "qs = [q]"
    using l by (cases qs) auto
  then have dave: "\<exists>q. fst (createAll ''dave'' [g, e] exampleStore) = [Inr q, Inl ERR_MAX_QUERY_COUNT]"
    using d by auto
  have pb: "getPlanConfig exampleStore ''bob'' = None"
    by (simp add: getPlanConfig_def exampleStore_def)
  have m0: "userPlanMaxQueryCount exampleStore ''bob'' = int 0"
    by (simp add: userPlanMaxQueryCount_def pb)
  have n0: "filter (ownerWhere exampleStore ''bob'') (queryItems exampleStore) = []"
    by (simp add: example_defs scope_defs)
  have bob: "fst (createAll ''bob'' [b] exampleStore) = [Inl ERR_MAX_QUERY_COUNT]"
    using C4_quota_sequence [OF m0 n0, of "[]" b] by simp
  show ?thesis
    using m1 dave pb bob unfolding g_def e_def b_def by simp
qed

section \<open>Update\<close>

text \<open>
  Claim C7. With \<open>count\<close> the number of rows the scoped bulk update matched,
  \<^verbatim>\<open>update\<close> adds exactly one notification with the id to the event log when
  \<open>count\<close> is not 0 and none otherwise, and in every case its final state and its
  outcome are those of \<^verbatim>\<open>addQueryRevision\<close> run after the bulk update (an error of the
  revision step is the error of \<^verbatim>\<open>update\<close>, a success gives \<open>count\<close>). When no row
  matched, the revision step is still run: it is its NotFoundException that \<^verbatim>\<open>update\<close>
  throws.
\<close>

theorem C7_update_notifies_and_records:
  "(let m = queryItem_updateMany (\<lambda>q. qi_id q = i \<and> ownerOrMemberWhere s u q) dto s;
        count = fst m;
        s2 = (if count \<noteq> 0 then emit i (snd m) else snd m);
        a = addQueryRevision u i revId now s2
    in events (snd (update u i dto revId now s))
         = (if count \<noteq> 0 then events s @ [i] else events s)
       \<and> snd (update u i dto revId now s) = snd a
       \<and> fst (update u i dto revId now s) = (case fst a of Inl e \<Rightarrow> Inl e | Inr v \<Rightarrow> Inr count)
       \<and> (count = 0 \<longrightarrow> update u i dto revId now s = (Inl NotFoundException, s)))"
proof -
  define m where "m = queryItem_updateMany (\<lambda>q. qi_id q = i \<and> ownerOrMemberWhere s u q) dto s"
  define s2 where "s2 = (if fst m \<noteq> 0 then emit i (snd m) else snd m)"
  define a where "a = addQueryRevision u i revId now s2"
  have upd: "update u i dto revId now s
               = ((case fst a of Inl e \<Rightarrow> Inl e | Inr v \<Rightarrow> Inr (fst m)), snd a)"
    by (simp add: update_def m_def s2_def a_def Let_def split: prod.splits sum.splits)
  have "events (snd m) = events s"
    by (simp add: m_def updateMany_frame)
  then have e2: "events s2 = (if fst m \<noteq> 0 then events s @ [i] else events s)"
    by (simp add: s2_def emit_def)
  have e3: "events (snd a) = events s2"
    by (simp add: a_def addQueryRevision_events)
  have z: "update u i dto revId now s = (Inl NotFoundException, s)" if "fst m = 0"
  proof -
    have "filter (\<lambda>q. qi_id q = i \<and> ownerOrMemberWhere s u q) (queryItems s) = []"
      using that by (simp add: m_def queryItem_updateMany_def)
    then have "\<forall>q\<in>set (queryItems s). qi_id q = i \<longrightarrow> \<not> ownerOrMemberWhere s u q"
      by (auto simp: filter_empty_conv)
    then show ?thesis by (rule update_out_of_scope)
  qed
  have "events (snd (update u i dto revId now s))
          = (if fst m \<noteq> 0 then events s @ [i] else events s)
        \<and> snd (update u i dto revId now s) = snd a
        \<and> fst (update u i dto revId now s) = (case fst a of Inl e \<Rightarrow> Inl e | Inr v \<Rightarrow> Inr (fst m))
        \<and> (fst m = 0 \<longrightarrow> update u i dto revId now s = (Inl NotFoundException, s))"
    using upd e2 e3 z by simp
  then show ?thesis
    unfolding Let_def m_def s2_def a_def .
qed

theorem C7_update_notifies_and_records_witness:
  "update ''alice'' ''q1'' \<lparr>u_name = Some ''renamed'', u_collectionId = None, u_content = None\<rparr>
      ''r2'' 9 exampleStore
     = (Inr 1,
        exampleStore\<lparr>queryItems := [itemQ1\<lparr>qi_name := ''renamed''\<rparr>],
                      queryItemRevisions :=
                        [revisionR1, revisionRow ''alice'' ''q1'' (itemQ1\<lparr>qi_name := ''renamed''\<rparr>) ''r2'' 9],
                      events := [''q1'']\<rparr>)
   \<and> update ''bob'' ''q1'' \<lparr>u_name = Some ''renamed'', u_collectionId = None, u_content = None\<rparr>
      ''r2'' 9 exampleStore = (Inl NotFoundException, exampleStore)"
proof -
  have 1: "queryItem_updateMany (\<lambda>q. qi_id q = ''q1'' \<and> ownerOrMemberWhere exampleStore ''alice'' q)
             \<lparr>u_name = Some ''renamed'', u_collectionId = None, u_content = None\<rparr> exampleStore
           = (1, exampleStore\<lparr>queryItems := [itemQ1\<lparr>qi_name := ''renamed''\<rparr>]\<rparr>)"
    by (simp add: queryItem_updateMany_def applyUpdate_def example_defs scope_defs)
  have 2: "addQueryRevision ''alice'' ''q1'' ''r2'' 9
             (emit ''q1'' (exampleStore\<lparr>queryItems := [itemQ1\<lparr>qi_name := ''renamed''\<rparr>]\<rparr>))
           = (Inr (revisionRow ''alice'' ''q1'' (itemQ1\<lparr>qi_name := ''renamed''\<rparr>) ''r2'' 9),
              exampleStore\<lparr>queryItems := [itemQ1\<lparr>qi_name := ''renamed''\<rparr>],
                      queryItemRevisions :=
                        [revisionR1, revisionRow ''alice'' ''q1'' (itemQ1\<lparr>qi_name := ''renamed''\<rparr>) ''r2'' 9],
                      events := [''q1'']\<rparr>)"
    by (simp add: service_defs example_defs scope_defs Let_def)
  have 3: "queryItem_updateMany (\<lambda>q. qi_id q = ''q1'' \<and> ownerOrMemberWhere exampleStore ''bob'' q)
             \<lparr>u_name = Some ''renamed'', u_collectionId = None, u_content = None\<rparr> exampleStore
           = (0, exampleStore)"
    by (simp add: queryItem_updateMany_def applyUpdate_def example_defs scope_defs)
  have a: "fst (update ''alice'' ''q1''
                 \<lparr>u_name = Some ''renamed'', u_collectionId = None, u_content = None\<rparr>
                 ''r2'' 9 exampleStore) = Inr 1
           \<and> snd (update ''alice'' ''q1''
                 \<lparr>u_name = Some ''renamed'', u_collectionId = None, u_content = None\<rparr>
                 ''r2'' 9 exampleStore)
             = exampleStore\<lparr>queryItems := [itemQ1\<lparr>qi_name := ''renamed''\<rparr>],
                 queryItemRevisions :=
                   [revisionR1,
                    revisionRow ''alice'' ''q1'' (itemQ1\<lparr>qi_name := ''renamed''\<rparr>) ''r2'' 9],
                 events := [''q1'']\<rparr>"
    using C7_update_notifies_and_records [of "''q1''" exampleStore "''alice''"
               "\<lparr>u_name = Some ''renamed'', u_collectionId = None, u_content = None\<rparr>" "''r2''" 9]
    by (simp add: 1 2 Let_def)
  have b: "update ''bob'' ''q1''
             \<lparr>u_name = Some ''renamed'', u_collectionId = None, u_content = None\<rparr>
             ''r2'' 9 exampleStore = (Inl NotFoundException, exampleStore)"
    using C7_update_notifies_and_records [of "''q1''" exampleStore "''bob''"
               "\<lparr>u_name = Some ''renamed'', u_collectionId = None, u_content = None\<rparr>" "''r2''" 9]
    by (simp add: 3 Let_def)
  show ?thesis
    using a b by (simp add: prod_eq_iff)
qed

section \<open>Recording a revision\<close>

text \<open>
  Claim C6. On a revision table with unique ids, let a call of \<^verbatim>\<open>addQueryRevision\<close>
  succeed. With \<open>inserted\<close> the table after the insert of the new row and \<open>mine\<close> its
  rows of the query item: if the number of rows in \<open>mine\<close> exceeds the resolved revision
  limit, the final table is \<open>inserted\<close> without one row \<open>old\<close> of \<open>mine\<close> whose
  \<^verbatim>\<open>createdAt\<close> is least among \<open>mine\<close> (so the table is as long as before the call);
  otherwise the final table is \<open>inserted\<close>, nothing deleted.
\<close>

theorem C6_evicts_one_oldest:
  assumes "distinct (map rev_id (queryItemRevisions s))"
      and "addQueryRevision userId queryId revId now s = (Inr res, s')"
  shows "(let inserted = queryItemRevisions s @ [res];
              mine = filter (\<lambda>r. rev_queryItemId r = queryId) inserted
          in if int (length mine) > userPlanQueryRevisionLimit s userId
             then \<exists>old\<in>set mine.
                    (\<forall>r\<in>set mine. rev_createdAt old \<le> rev_createdAt r)
                    \<and> queryItemRevisions s' = remove1 old inserted
                    \<and> length (queryItemRevisions s') = length (queryItemRevisions s)
             else queryItemRevisions s' = inserted)"
proof -
  define inserted where "inserted = queryItemRevisions s @ [res]"
  define mine where "mine = filter (\<lambda>r. rev_queryItemId r = queryId) inserted"
  define s1 where "s1 = s\<lparr>queryItemRevisions := inserted\<rparr>"
  obtain q where res: "res = revisionRow userId queryId q revId now"
    and fresh: "revId \<notin> set (map rev_id (queryItemRevisions s))"
    and s0: "s' = (let s1 = s\<lparr>queryItemRevisions := queryItemRevisions s @ [res]\<rparr>
                   in if int (length (revisionsOf s1 queryId)) > userPlanQueryRevisionLimit s userId
                      then (case oldest (revisionsOf s1 queryId) of
                              None \<Rightarrow> s1
                            | Some old \<Rightarrow> queryItemRevision_delete (rev_id old) s1)
                      else s1)"
    using addQueryRevision_ok [OF assms(2)] by blast
  have s': "s' = (if int (length (revisionsOf s1 queryId)) > userPlanQueryRevisionLimit s userId
                   then (case oldest (revisionsOf s1 queryId) of
                           None \<Rightarrow> s1
                         | Some old \<Rightarrow> queryItemRevision_delete (rev_id old) s1)
                   else s1)"
    using s0 unfolding Let_def s1_def inserted_def .
  have m: "revisionsOf s1 queryId = mine"
    by (simp add: revisionsOf_def s1_def mine_def)
  have s'': "s' = (if int (length mine) > userPlanQueryRevisionLimit s userId
                   then (case oldest mine of
                           None \<Rightarrow> s1
                         | Some old \<Rightarrow> queryItemRevision_delete (rev_id old) s1)
                   else s1)"
    using s' unfolding m .
  have q1: "queryItemRevisions s1 = inserted"
    by (simp add: s1_def)
  have "rev_id res = revId" by (simp add: res revisionRow_def)
  then have d: "distinct (map rev_id inserted)"
    using assms(1) fresh by (simp add: inserted_def)
  have goal: "if int (length mine) > userPlanQueryRevisionLimit s userId
        then \<exists>old\<in>set mine.
               (\<forall>r\<in>set mine. rev_createdAt old \<le> rev_createdAt r)
               \<and> queryItemRevisions s' = remove1 old inserted
               \<and> length (queryItemRevisions s') = length (queryItemRevisions s)
        else queryItemRevisions s' = inserted"
  proof (cases "int (length mine) > userPlanQueryRevisionLimit s userId")
    case False
    then show ?thesis by (simp add: s'' q1)
  next
    case True
    have "res \<in> set mine" by (simp add: mine_def inserted_def res revisionRow_def)
    then have "mine \<noteq> []" by auto
    then obtain old where o: "oldest mine = Some old"
      using oldest_None [of mine] by (cases "oldest mine") auto
    have om: "old \<in> set mine" and least: "\<forall>r\<in>set mine. rev_createdAt old \<le> rev_createdAt r"
      using oldest_Some [OF o] by simp_all
    have oi: "old \<in> set inserted" using om by (simp add: mine_def)
    have "queryItemRevisions s' = filter (\<lambda>r. rev_id r \<noteq> rev_id old) inserted"
      using True o by (simp add: s'' queryItemRevision_delete_def q1)
    then have eq: "queryItemRevisions s' = remove1 old inserted"
      using filter_key_remove1 [OF d oi] by simp
    have "length (remove1 old inserted) = length inserted - 1"
      using oi by (simp add: length_remove1)
    then have "length (queryItemRevisions s') = length (queryItemRevisions s)"
      using eq by (simp add: inserted_def)
    then show ?thesis using True om least eq by auto
  qed
  show ?thesis
    unfolding Let_def using goal unfolding mine_def inserted_def .
qed

theorem C6_evicts_one_oldest_witness:
  "distinct (map rev_id (queryItemRevisions exampleStore))
   \<and> addQueryRevision ''alice'' ''q1'' ''r2'' 9 exampleStore
       = (Inr (revisionRow ''alice'' ''q1'' itemQ1 ''r2'' 9),
          exampleStore\<lparr>queryItemRevisions :=
            [revisionR1, revisionRow ''alice'' ''q1'' itemQ1 ''r2'' 9]\<rparr>)
   \<and> userPlanQueryRevisionLimit exampleStore ''alice'' = 2
   \<and> remove1 revisionR0 [revisionR0, revisionR1, revisionRow ''alice'' ''q1'' itemQ1 ''r2'' 9]
       = [revisionR1, revisionRow ''alice'' ''q1'' itemQ1 ''r2'' 9]"
proof -
  have d: "distinct (map rev_id (queryItemRevisions exampleStore))"
    by (simp add: example_defs)
  have a: "addQueryRevision ''alice'' ''q1'' ''r2'' 9 exampleStore
       = (Inr (revisionRow ''alice'' ''q1'' itemQ1 ''r2'' 9),
          exampleStore\<lparr>queryItemRevisions :=
            [revisionR1, revisionRow ''alice'' ''q1'' itemQ1 ''r2'' 9]\<rparr>)"
    by (simp add: service_defs example_defs scope_defs Let_def)
  have l: "userPlanQueryRevisionLimit exampleStore ''alice'' = 2"
    by (simp add: userPlanQueryRevisionLimit_def getPlanConfig_def exampleStore_def)
  have r: "remove1 revisionR0 [revisionR0, revisionR1, revisionRow ''alice'' ''q1'' itemQ1 ''r2'' 9]
       = [revisionR1, revisionRow ''alice'' ''q1'' itemQ1 ''r2'' 9]"
    by simp
  show ?thesis
    using C6_evicts_one_oldest [OF d a] d a l r by simp
qed

text \<open>
  Claim C5. The caller's resolved revision limit is 2. A query item in the caller's
  scope, with at most two revisions so far, all older than the first update, is
  updated three times in sequence at increasing times; each update leaves the item in
  the caller's scope and gets a fresh revision key. Then all three updates succeed on
  one row, and afterwards the item has exactly two revisions: the snapshot taken by the
  second update and the snapshot taken by the third, in this order. The snapshot of the
  first update (and every older revision) has been evicted.
\<close>

theorem C5_three_updates_limit_two:
  fixes s :: state and u i :: string and d1 d2 d3 :: updateQueryDto
    and rid1 rid2 rid3 :: string and t1 t2 t3 :: nat and q0 :: queryItem
  defines "s1 \<equiv> snd (update u i d1 rid1 t1 s)"
    and "s2 \<equiv> snd (update u i d2 rid2 t2 (snd (update u i d1 rid1 t1 s)))"
    and "q1 \<equiv> applyUpdate d1 q0"
    and "q2 \<equiv> applyUpdate d2 (applyUpdate d1 q0)"
    and "q3 \<equiv> applyUpdate d3 (applyUpdate d2 (applyUpdate d1 q0))"
  assumes lim: "userPlanQueryRevisionLimit s u = 2"
    and di: "distinct (map qi_id (queryItems s))"
    and q0: "q0 \<in> set (queryItems s)" and i: "qi_id q0 = i"
    and vis: "ownerOrMemberWhere s u q0" "ownerOrMemberWhere s u q1"
      "ownerOrMemberWhere s u q2" "ownerOrMemberWhere s u q3"
    and dr: "distinct (map rev_id (queryItemRevisions s))"
    and fresh: "distinct [rid1, rid2, rid3]"
      "set [rid1, rid2, rid3] \<inter> set (map rev_id (queryItemRevisions s)) = {}"
    and len: "length (revisionsOf s i) \<le> 2"
    and old: "\<forall>r\<in>set (revisionsOf s i). rev_createdAt r < t1"
    and t12: "t1 < t2" and t23: "t2 < t3"
  shows "fst (update u i d1 rid1 t1 s) = Inr 1
         \<and> fst (update u i d2 rid2 t2 s1) = Inr 1
         \<and> fst (update u i d3 rid3 t3 s2) = Inr 1
         \<and> revisionsOf (snd (update u i d3 rid3 t3 s2)) i
             = [revisionRow u i q2 rid2 t2, revisionRow u i q3 rid3 t3]"
proof -
  define n1 where "n1 = revisionRow u i q1 rid1 t1"
  define n2 where "n2 = revisionRow u i q2 rid2 t2"
  define n3 where "n3 = revisionRow u i q3 rid3 t3"
  define R where "R = revisionsOf s i"
  have fr: "rid1 \<notin> set (map rev_id (queryItemRevisions s))"
    "rid2 \<notin> set (map rev_id (queryItemRevisions s))"
    "rid3 \<notin> set (map rev_id (queryItemRevisions s))"
    "rid1 \<noteq> rid2" "rid1 \<noteq> rid3" "rid2 \<noteq> rid3"
    using fresh by simp_all
  note f1 = fr(1)
  obtain a1 where u1: "update u i d1 rid1 t1 s = (Inr 1, a1)
      \<and> workspaces a1 = workspaces s \<and> teams a1 = teams s
      \<and> queryCollections a1 = queryCollections s \<and> planConfigs a1 = planConfigs s
      \<and> distinct (map qi_id (queryItems a1))
      \<and> applyUpdate d1 q0 \<in> set (queryItems a1)
      \<and> revisionsOf a1 i
          = evict (userPlanQueryRevisionLimit s u)
              (revisionsOf s i @ [revisionRow u i (applyUpdate d1 q0) rid1 t1])
      \<and> set (map rev_id (queryItemRevisions a1))
          \<subseteq> insert rid1 (set (map rev_id (queryItemRevisions s)))
      \<and> (distinct (map rev_id (queryItemRevisions s))
          \<longrightarrow> distinct (map rev_id (queryItemRevisions a1)))"
    using update_step [OF di q0 i vis(1) vis(2) [unfolded q1_def] f1, of t1]
    by (elim exE) (rule that)
  have a1: "a1 = s1"
    using u1 by (simp add: s1_def)
  have w1: "ownerOrMemberWhere s1 = ownerOrMemberWhere s"
    using u1 unfolding a1 by (intro ownerOrMemberWhere_frame) simp_all
  have p1: "planConfigs s1 = planConfigs s"
    using u1 unfolding a1 by simp
  have l1: "userPlanQueryRevisionLimit s1 u = 2"
    using userPlanQueryRevisionLimit_frame [OF p1] lim by simp
  have R1: "revisionsOf s1 i = evict 2 (R @ [n1])"
    using u1 lim unfolding a1 by (simp add: R_def n1_def q1_def)
  have ids1: "set (map rev_id (queryItemRevisions s1))
                \<subseteq> insert rid1 (set (map rev_id (queryItemRevisions s)))"
    using u1 unfolding a1 by simp
  have f2: "rid2 \<notin> set (map rev_id (queryItemRevisions s1))"
    using ids1 fr by blast
  have q1i: "qi_id q1 = i"
    using i by (simp add: q1_def applyUpdate_id)
  have di1: "distinct (map qi_id (queryItems s1))" and in1: "q1 \<in> set (queryItems s1)"
    using u1 unfolding a1 by (simp_all add: q1_def)
  have v11: "ownerOrMemberWhere s1 u q1" and v12: "ownerOrMemberWhere s1 u (applyUpdate d2 q1)"
    using vis(2,3) by (simp_all add: w1 q1_def q2_def)
  obtain a2 where u2: "update u i d2 rid2 t2 s1 = (Inr 1, a2)
      \<and> workspaces a2 = workspaces s1 \<and> teams a2 = teams s1
      \<and> queryCollections a2 = queryCollections s1 \<and> planConfigs a2 = planConfigs s1
      \<and> distinct (map qi_id (queryItems a2))
      \<and> applyUpdate d2 q1 \<in> set (queryItems a2)
      \<and> revisionsOf a2 i
          = evict (userPlanQueryRevisionLimit s1 u)
              (revisionsOf s1 i @ [revisionRow u i (applyUpdate d2 q1) rid2 t2])
      \<and> set (map rev_id (queryItemRevisions a2))
          \<subseteq> insert rid2 (set (map rev_id (queryItemRevisions s1)))
      \<and> (distinct (map rev_id (queryItemRevisions s1))
          \<longrightarrow> distinct (map rev_id (queryItemRevisions a2)))"
    using update_step [OF di1 in1 q1i v11 v12 f2, of t2]
    by (elim exE) (rule that)
  have a2: "a2 = s2"
    using u2 by (simp add: s2_def s1_def)
  have w2: "ownerOrMemberWhere s2 = ownerOrMemberWhere s1"
    using u2 unfolding a2 by (intro ownerOrMemberWhere_frame) simp_all
  have p2: "planConfigs s2 = planConfigs s1"
    using u2 unfolding a2 by simp
  have l2: "userPlanQueryRevisionLimit s2 u = 2"
    using userPlanQueryRevisionLimit_frame [OF p2] l1 by simp
  have q2e: "applyUpdate d2 q1 = q2"
    by (simp add: q1_def q2_def)
  have R2: "revisionsOf s2 i = evict 2 (evict 2 (R @ [n1]) @ [n2])"
    using u2 l1 unfolding a2 by (simp add: R1 n2_def q2e)
  have ids2: "set (map rev_id (queryItemRevisions s2))
                \<subseteq> insert rid2 (set (map rev_id (queryItemRevisions s1)))"
    using u2 unfolding a2 by simp
  have f3: "rid3 \<notin> set (map rev_id (queryItemRevisions s2))"
    using ids1 ids2 fr by blast
  have q2i: "qi_id q2 = i"
    using i by (simp add: q2_def applyUpdate_id)
  have di2: "distinct (map qi_id (queryItems s2))" and in2: "q2 \<in> set (queryItems s2)"
    using u2 unfolding a2 by (simp_all add: q2e)
  have v21: "ownerOrMemberWhere s2 u q2" and v22: "ownerOrMemberWhere s2 u (applyUpdate d3 q2)"
    using vis(3,4) by (simp_all add: w2 w1 q2_def q3_def)
  obtain a3 where u3: "update u i d3 rid3 t3 s2 = (Inr 1, a3)
      \<and> workspaces a3 = workspaces s2 \<and> teams a3 = teams s2
      \<and> queryCollections a3 = queryCollections s2 \<and> planConfigs a3 = planConfigs s2
      \<and> distinct (map qi_id (queryItems a3))
      \<and> applyUpdate d3 q2 \<in> set (queryItems a3)
      \<and> revisionsOf a3 i
          = evict (userPlanQueryRevisionLimit s2 u)
              (revisionsOf s2 i @ [revisionRow u i (applyUpdate d3 q2) rid3 t3])
      \<and> set (map rev_id (queryItemRevisions a3))
          \<subseteq> insert rid3 (set (map rev_id (queryItemRevisions s2)))
      \<and> (distinct (map rev_id (queryItemRevisions s2))
          \<longrightarrow> distinct (map rev_id (queryItemRevisions a3)))"
    using update_step [OF di2 in2 q2i v21 v22 f3, of t3]
    by (elim exE) (rule that)
  have q3e: "applyUpdate d3 q2 = q3"
    by (simp add: q2_def q3_def)
  have R3: "revisionsOf a3 i = evict 2 (evict 2 (evict 2 (R @ [n1]) @ [n2]) @ [n3])"
    using u3 l2 by (simp add: R2 n3_def q3e)
  have dR: "distinct (map rev_id R)"
    unfolding R_def revisionsOf_def using dr by (rule distinct_map_filter)
  have sub: "set (map rev_id R) \<subseteq> set (map rev_id (queryItemRevisions s))"
    by (auto simp: R_def revisionsOf_def)
  have nR: "rid1 \<notin> set (map rev_id R)" "rid2 \<notin> set (map rev_id R)"
    "rid3 \<notin> set (map rev_id R)"
    using sub fr(1-3) by blast+
  have dall: "distinct (map rev_id (R @ [n1, n2, n3]))"
    using dR nR fr(4-6) by (simp add: n1_def n2_def n3_def revisionRow_sel)
  have "evict 2 (evict 2 (evict 2 (R @ [n1]) @ [n2]) @ [n3]) = [n2, n3]"
  proof (rule evict_three)
    show "length R \<le> 2" using len by (simp add: R_def)
    show "\<forall>r\<in>set R. rev_createdAt r < rev_createdAt n1"
      using old by (simp add: R_def n1_def revisionRow_sel)
    show "rev_createdAt n1 < rev_createdAt n2"
      using t12 by (simp add: n1_def n2_def revisionRow_sel)
    show "rev_createdAt n2 < rev_createdAt n3"
      using t23 by (simp add: n2_def n3_def revisionRow_sel)
    show "distinct (map rev_id (R @ [n1, n2, n3]))" by (rule dall)
  qed
  then have fin: "revisionsOf a3 i = [n2, n3]"
    using R3 by simp
  show ?thesis
    using u1 u2 u3 fin unfolding a1 by (simp add: n2_def n3_def)
qed

theorem C5_three_updates_limit_two_witness:
  "userPlanQueryRevisionLimit exampleStore ''alice'' = 2
   \<and> revisionsOf exampleStore ''q1'' = [revisionR0, revisionR1]
   \<and> revisionsOf
        (snd (update ''alice'' ''q1'' \<lparr>u_name = Some ''three'', u_collectionId = None, u_content = None\<rparr>
                ''r4'' 8
           (snd (update ''alice'' ''q1'' \<lparr>u_name = Some ''two'', u_collectionId = None, u_content = None\<rparr>
                   ''r3'' 7
              (snd (update ''alice'' ''q1''
                      \<lparr>u_name = Some ''one'', u_collectionId = None, u_content = None\<rparr>
                      ''r2'' 6 exampleStore))))))
        ''q1''
       = [revisionRow ''alice'' ''q1'' (itemQ1\<lparr>qi_name := ''two''\<rparr>) ''r3'' 7,
          revisionRow ''alice'' ''q1'' (itemQ1\<lparr>qi_name := ''three''\<rparr>) ''r4'' 8]"
proof -
  define d1 where "d1 = \<lparr>u_name = Some ''one'', u_collectionId = None, u_content = None\<rparr>"
  define d2 where "d2 = \<lparr>u_name = Some ''two'', u_collectionId = None, u_content = None\<rparr>"
  define d3 where "d3 = \<lparr>u_name = Some ''three'', u_collectionId = None, u_content = None\<rparr>"
  have lim: "userPlanQueryRevisionLimit exampleStore ''alice'' = 2"
    by (simp add: userPlanQueryRevisionLimit_def getPlanConfig_def exampleStore_def)
  have di: "distinct (map qi_id (queryItems exampleStore))"
    by (simp add: example_defs)
  have q0: "itemQ1 \<in> set (queryItems exampleStore)"
    by (simp add: exampleStore_def)
  have i: "qi_id itemQ1 = ''q1''"
    by (simp add: itemQ1_def)
  have v0: "ownerOrMemberWhere exampleStore ''alice'' itemQ1"
    by (simp add: example_defs scope_defs)
  have v1: "ownerOrMemberWhere exampleStore ''alice'' (applyUpdate d1 itemQ1)"
    by (simp add: example_defs scope_defs applyUpdate_def d1_def)
  have v2: "ownerOrMemberWhere exampleStore ''alice'' (applyUpdate d2 (applyUpdate d1 itemQ1))"
    by (simp add: example_defs scope_defs applyUpdate_def d1_def d2_def)
  have v3: "ownerOrMemberWhere exampleStore ''alice''
              (applyUpdate d3 (applyUpdate d2 (applyUpdate d1 itemQ1)))"
    by (simp add: example_defs scope_defs applyUpdate_def d1_def d2_def d3_def)
  have dr: "distinct (map rev_id (queryItemRevisions exampleStore))"
    by (simp add: example_defs)
  have f1: "distinct [''r2'', ''r3'', ''r4'']"
    by simp
  have f2: "set [''r2'', ''r3'', ''r4''] \<inter> set (map rev_id (queryItemRevisions exampleStore)) = {}"
    by (simp add: example_defs)
  have rs: "revisionsOf exampleStore ''q1'' = [revisionR0, revisionR1]"
    by (simp add: revisionsOf_def example_defs)
  have len: "length (revisionsOf exampleStore ''q1'') \<le> 2"
    by (simp add: rs)
  have old: "\<forall>r\<in>set (revisionsOf exampleStore ''q1''). rev_createdAt r < 6"
    by (simp add: rs revisionR0_def revisionR1_def)
  have t12: "(6::nat) < 7" and t23: "(7::nat) < 8"
    by simp_all
  have q2: "applyUpdate d2 (applyUpdate d1 itemQ1) = itemQ1\<lparr>qi_name := ''two''\<rparr>"
    by (simp add: applyUpdate_def d1_def d2_def)
  have q3: "applyUpdate d3 (itemQ1\<lparr>qi_name := ''two''\<rparr>) = itemQ1\<lparr>qi_name := ''three''\<rparr>"
    by (simp add: applyUpdate_def d3_def)
  have "revisionsOf
          (snd (update ''alice'' ''q1'' d3 ''r4'' 8
             (snd (update ''alice'' ''q1'' d2 ''r3'' 7
                (snd (update ''alice'' ''q1'' d1 ''r2'' 6 exampleStore))))))
          ''q1''
        = [revisionRow ''alice'' ''q1'' (itemQ1\<lparr>qi_name := ''two''\<rparr>) ''r3'' 7,
           revisionRow ''alice'' ''q1'' (itemQ1\<lparr>qi_name := ''three''\<rparr>) ''r4'' 8]"
    using C5_three_updates_limit_two [OF lim di q0 i v0 v1 v2 v3 dr f1 f2 len old t12 t23]
    unfolding q2 q3 by simp
  then show ?thesis
    using lim rs unfolding d1_def d2_def d3_def by simp
qed

section \<open>Restoring a revision\<close>

text \<open>
  Claim C1 at a concrete input. Alice restores revision r0 of her item q1. The item
  gets the name, content and collection of r0, but the revision table is what it was
  (no revision of the restored state is recorded) and no event is emitted, unlike in
  \<^verbatim>\<open>create\<close> and \<^verbatim>\<open>update\<close>.
\<close>

theorem C1_restore_records_no_revision:
  "restoreRevision ''alice'' ''r0'' exampleStore
     = (Inr (itemQ1\<lparr>qi_name := ''first'', qi_content := contentA\<rparr>),
        exampleStore\<lparr>queryItems := [itemQ1\<lparr>qi_name := ''first'', qi_content := contentA\<rparr>]\<rparr>)
   \<and> queryItemRevisions (snd (restoreRevision ''alice'' ''r0'' exampleStore))
       = [revisionR0, revisionR1]
   \<and> events (snd (restoreRevision ''alice'' ''r0'' exampleStore)) = []"
  by (simp add: service_defs example_defs scope_defs)

section \<open>Revision bookkeeping and notification of the mutating methods\<close>

text \<open>
  Claim C2, as stated, at a concrete input: Alice removes her item q1, which has no
  revisions. The call succeeds and emits the notification, but no revision is recorded.
\<close>

theorem C2_remove_counterexample:
  "remove ''alice'' ''q1'' (exampleStore\<lparr>queryItemRevisions := []\<rparr>)
     = (Inr 1, exampleStore\<lparr>queryItems := [], queryItemRevisions := [], events := [''q1'']\<rparr>)"
  by (simp add: service_defs example_defs scope_defs)

text \<open>
  Claim C2, amended. A successful \<^verbatim>\<open>create\<close> has inserted the item, then run
  \<^verbatim>\<open>addQueryRevision\<close> for it with success, then emitted exactly one notification with
  the id of the new item. A successful \<^verbatim>\<open>update\<close> has matched a row, emitted exactly
  one notification with the id and then run \<^verbatim>\<open>addQueryRevision\<close> with success.
  \<^verbatim>\<open>remove\<close> records no revision; it emits one notification with the id when it deleted
  a row and none otherwise.
\<close>

theorem C2_mutations_record_and_notify:
  "(create u cdto newId revId now s = (Inr q, s') \<longrightarrow>
      (\<exists>s1 r s2. queryItem_create q s = Inr s1
         \<and> addQueryRevision u (qi_id q) revId now s1 = (Inr r, s2)
         \<and> s' = emit (qi_id q) s2)
      \<and> events s' = events s @ [qi_id q])
   \<and> (update u i udto revId now s = (Inr n, s') \<longrightarrow>
      (\<exists>r. addQueryRevision u i revId now
              (emit i (snd (queryItem_updateMany
                 (\<lambda>q. qi_id q = i \<and> ownerOrMemberWhere s u q) udto s))) = (Inr r, s'))
      \<and> events s' = events s @ [i])
   \<and> (remove u i s = (Inr n, s') \<longrightarrow>
      queryItemRevisions s' = queryItemRevisions s
      \<and> events s' = (if n \<noteq> 0 then events s @ [i] else events s))"
proof (intro conjI impI)
  assume c: "create u cdto newId revId now s = (Inr q, s')"
  then obtain s1 r s2 where 1: "queryItem_create q s = Inr s1"
    and 2: "addQueryRevision u (qi_id q) revId now s1 = (Inr r, s2)"
    and 3: "s' = emit (qi_id q) s2"
    using create_ok by blast
  show "\<exists>s1 r s2. queryItem_create q s = Inr s1
         \<and> addQueryRevision u (qi_id q) revId now s1 = (Inr r, s2)
         \<and> s' = emit (qi_id q) s2"
    using 1 2 3 by blast
  have "events s1 = events s"
    using 1 by (auto simp: queryItem_create_def split: if_splits)
  moreover have "events s2 = events s1"
    using addQueryRevision_events [of u "qi_id q" revId now s1] 2 by simp
  ultimately show "events s' = events s @ [qi_id q]"
    using 3 by (simp add: emit_def)
next
  assume a: "update u i udto revId now s = (Inr n, s')"
  define m where "m = queryItem_updateMany (\<lambda>q. qi_id q = i \<and> ownerOrMemberWhere s u q) udto s"
  define s2 where "s2 = (if fst m \<noteq> 0 then emit i (snd m) else snd m)"
  have upd: "update u i udto revId now s
               = ((case fst (addQueryRevision u i revId now s2) of
                     Inl e \<Rightarrow> Inl e | Inr v \<Rightarrow> Inr (fst m)),
                  snd (addQueryRevision u i revId now s2))"
    by (simp add: update_def m_def s2_def Let_def split: prod.splits sum.splits)
  obtain r where r: "addQueryRevision u i revId now s2 = (Inr r, s')"
    using a unfolding upd
    by (cases "addQueryRevision u i revId now s2"; cases "fst (addQueryRevision u i revId now s2)")
       auto
  have "filter (\<lambda>q. qi_id q = i \<and> ownerOrMemberWhere s u q) (queryItems s) \<noteq> []"
    using r
    by (rule update_ok_matched [where dto = udto])
       (simp_all add: s2_def m_def queryItem_updateMany_def emit_def)
  then have nz: "fst m \<noteq> 0"
    by (simp add: m_def queryItem_updateMany_def)
  then have s2: "s2 = emit i (snd m)"
    by (simp add: s2_def)
  show "\<exists>r. addQueryRevision u i revId now
              (emit i (snd (queryItem_updateMany
                 (\<lambda>q. qi_id q = i \<and> ownerOrMemberWhere s u q) udto s))) = (Inr r, s')"
    using r s2 by (auto simp: m_def)
  have "events s' = events s2"
    using addQueryRevision_events [of u i revId now s2] r by simp
  then show "events s' = events s @ [i]"
    by (simp add: s2 m_def emit_def updateMany_frame)
next
  assume "remove u i s = (Inr n, s')"
  then show "queryItemRevisions s' = queryItemRevisions s"
    by (auto simp: remove_def queryItem_deleteMany_def emit_def split: if_splits)
next
  assume "remove u i s = (Inr n, s')"
  then show "events s' = (if n \<noteq> 0 then events s @ [i] else events s)"
    by (auto simp: remove_def queryItem_deleteMany_def emit_def split: if_splits)
qed

theorem C2_mutations_record_and_notify_witness:
  "create ''dave'' \<lparr>c_collectionId = Some ''c3'', c_name = Some ''n'', c_content = Some contentA\<rparr>
      ''q2'' ''r2'' 9 exampleStore
     = (Inr \<lparr>qi_id = ''q2'', qi_collectionId = ''c3'', qi_name = ''n'', qi_queryVersion = 1,
             qi_content = contentA\<rparr>,
        exampleStore\<lparr>queryItems := [itemQ1,
            \<lparr>qi_id = ''q2'', qi_collectionId = ''c3'', qi_name = ''n'', qi_queryVersion = 1,
             qi_content = contentA\<rparr>],
          queryItemRevisions := [revisionR0, revisionR1,
            \<lparr>rev_id = ''r2'', rev_queryItemId = ''q2'', rev_createdById = ''dave'',
             rev_name = ''n'', rev_content = contentA, rev_collectionId = ''c3'',
             rev_createdAt = 9\<rparr>],
          events := [''q2'']\<rparr>)
   \<and> update ''alice'' ''q1'' \<lparr>u_name = Some ''renamed'', u_collectionId = None, u_content = None\<rparr>
        ''r2'' 9 exampleStore
     = (Inr 1,
        exampleStore\<lparr>queryItems := [itemQ1\<lparr>qi_name := ''renamed''\<rparr>],
          queryItemRevisions :=
            [revisionR1, revisionRow ''alice'' ''q1'' (itemQ1\<lparr>qi_name := ''renamed''\<rparr>) ''r2'' 9],
          events := [''q1'']\<rparr>)
   \<and> remove ''alice'' ''q1'' exampleStore
     = (Inr 1, exampleStore\<lparr>queryItems := [], events := [''q1'']\<rparr>)
   \<and> events exampleStore = []"
proof -
  have c: "create ''dave'' \<lparr>c_collectionId = Some ''c3'', c_name = Some ''n'', c_content = Some contentA\<rparr>
      ''q2'' ''r2'' 9 exampleStore
     = (Inr \<lparr>qi_id = ''q2'', qi_collectionId = ''c3'', qi_name = ''n'', qi_queryVersion = 1,
             qi_content = contentA\<rparr>,
        exampleStore\<lparr>queryItems := [itemQ1,
            \<lparr>qi_id = ''q2'', qi_collectionId = ''c3'', qi_name = ''n'', qi_queryVersion = 1,
             qi_content = contentA\<rparr>],
          queryItemRevisions := [revisionR0, revisionR1,
            \<lparr>rev_id = ''r2'', rev_queryItemId = ''q2'', rev_createdById = ''dave'',
             rev_name = ''n'', rev_content = contentA, rev_collectionId = ''c3'',
             rev_createdAt = 9\<rparr>],
          events := [''q2'']\<rparr>)"
    by (simp add: service_defs example_defs scope_defs Let_def)
  have u: "update ''alice'' ''q1'' \<lparr>u_name = Some ''renamed'', u_collectionId = None, u_content = None\<rparr>
        ''r2'' 9 exampleStore
     = (Inr 1,
        exampleStore\<lparr>queryItems := [itemQ1\<lparr>qi_name := ''renamed''\<rparr>],
          queryItemRevisions :=
            [revisionR1, revisionRow ''alice'' ''q1'' (itemQ1\<lparr>qi_name := ''renamed''\<rparr>) ''r2'' 9],
          events := [''q1'']\<rparr>)"
    by (simp add: service_defs example_defs scope_defs Let_def)
  have r: "remove ''alice'' ''q1'' exampleStore
     = (Inr 1, exampleStore\<lparr>queryItems := [], events := [''q1'']\<rparr>)"
    by (simp add: service_defs example_defs scope_defs)
  have e: "events exampleStore = []"
    by (simp add: exampleStore_def)
  show ?thesis
    using c u r e
      C2_mutations_record_and_notify [THEN conjunct1, rule_format, OF c]
      C2_mutations_record_and_notify [THEN conjunct2, THEN conjunct1, rule_format, OF u]
      C2_mutations_record_and_notify [THEN conjunct2, THEN conjunct2, rule_format, OF r]
    by simp
qed

end
